theory Spec2Isabelle
  imports Main "HOL-Library.Sublist"
begin

section \<open>Python primitives used by dresguardian.py\<close>

text \<open>
  Python integers are unbounded: \<open>int\<close>. Strings are \<open>string\<close>; the model covers the
  ASCII range, where \<open>str.lower\<close> only moves \<open>A..Z\<close> to \<open>a..z\<close>.
\<close>

definition digit_char :: "int \<Rightarrow> char" where
  "digit_char d =
     (if d = 0 then CHR ''0'' else if d = 1 then CHR ''1'' else if d = 2 then CHR ''2''
      else if d = 3 then CHR ''3'' else if d = 4 then CHR ''4'' else if d = 5 then CHR ''5''
      else if d = 6 then CHR ''6'' else if d = 7 then CHR ''7'' else if d = 8 then CHR ''8''
      else CHR ''9'')"

text \<open>The decimal digits of a number that is not negative.\<close>

function str_digits :: "int \<Rightarrow> string" where
  "str_digits n =
     (if n < 10 then [digit_char n] else str_digits (n div 10) @ [digit_char (n mod 10)])"
  by pat_completeness auto
termination
  by (relation "measure nat") auto

declare str_digits.simps [simp del]

text \<open>\<open>str(i)\<close> for a Python int: decimal digits, a leading minus sign for negatives.\<close>

definition str_int :: "int \<Rightarrow> string" where
  "str_int i = (if i < 0 then CHR ''-'' # str_digits (- i) else str_digits i)"

definition lower_char :: "char \<Rightarrow> char" where
  "lower_char c =
     (case map_of (zip ''ABCDEFGHIJKLMNOPQRSTUVWXYZ'' ''abcdefghijklmnopqrstuvwxyz'') c of
        None \<Rightarrow> c
      | Some d \<Rightarrow> d)"

text \<open>\<open>s.lower()\<close>.\<close>

definition str_lower :: "string \<Rightarrow> string" where
  "str_lower s = map lower_char s"

text \<open>\<open>w in t\<close> for strings: \<open>w\<close> occurs in \<open>t\<close> as a contiguous run. \<open>s.startswith(p)\<close> is \<open>prefix p s\<close>.\<close>

fun str_contains :: "string \<Rightarrow> string \<Rightarrow> bool" where
  "str_contains [] w = (w = [])"
| "str_contains (c # cs) w = (prefix w (c # cs) \<or> str_contains cs w)"

text \<open>\<open>sep.join(xs)\<close>.\<close>

fun str_join :: "string \<Rightarrow> string list \<Rightarrow> string" where
  "str_join sep [] = []"
| "str_join sep [x] = x"
| "str_join sep (x # y # ys) = x @ sep @ str_join sep (y # ys)"

text \<open>
  \<open>s.replace(old, new)\<close>: occurrences of \<open>old\<close> are replaced from the left, without
  overlap; the text put in is not scanned again. For an empty \<open>old\<close> Python puts \<open>new\<close>
  before every character and at the end.
\<close>

function str_replace :: "string \<Rightarrow> string \<Rightarrow> string \<Rightarrow> string" where
  "str_replace old new [] = (if old = [] then new else [])"
| "str_replace old new (c # cs) =
     (if old = [] then new @ concat (map (\<lambda>x. x # new) (c # cs))
      else if prefix old (c # cs) then new @ str_replace old new (drop (length old) (c # cs))
      else c # str_replace old new cs)"
  by pat_completeness auto
termination
  by (relation "measure (\<lambda>(old, new, s). length s)") auto

definition is_digit :: "char \<Rightarrow> bool" where
  "is_digit c = (c \<in> set ''0123456789'')"

definition is_space :: "char \<Rightarrow> bool" where
  "is_space c = (c \<in> set [CHR '' '', CHR 0x09, CHR 0x0A, CHR 0x0B, CHR 0x0C, CHR 0x0D])"

definition digit_val :: "char \<Rightarrow> int" where
  "digit_val c = (case map_of (zip ''0123456789'' [0, 1, 2, 3, 4, 5, 6, 7, 8, 9]) c of
                    None \<Rightarrow> 0 | Some d \<Rightarrow> d)"

definition digits_val :: "string \<Rightarrow> int" where
  "digits_val ds = foldl (\<lambda>acc c. 10 * acc + digit_val c) 0 ds"

text \<open>
  The digit part of a decimal literal accepted by \<open>int()\<close>: digits, with single
  underscores allowed between two digits.
\<close>

fun digit_groups :: "string \<Rightarrow> bool" where
  "digit_groups [] = False"
| "digit_groups [c] = is_digit c"
| "digit_groups (c # d # cs) =
     (is_digit c \<and> (if d = CHR ''_'' then digit_groups cs else digit_groups (d # cs)))"

definition max_str_digits :: nat where
  "max_str_digits = 4300"

text \<open>
  \<open>int(s)\<close> on an ASCII string, base 10; \<open>None\<close> is \<open>ValueError\<close>. Surrounding ASCII
  whitespace is stripped, one sign is allowed. Interpreters with the integer string
  conversion limit (its default is 4300 digits) also raise \<open>ValueError\<close> beyond it.
  Digits and whitespace outside ASCII, which \<open>int\<close> and \<open>\d\<close> also accept, are not
  covered.
\<close>

definition int_of_str :: "string \<Rightarrow> int option" where
  "int_of_str s =
     (let t = dropWhile is_space (rev (dropWhile is_space (rev s)));
          neg = (case t of [] \<Rightarrow> False | c # _ \<Rightarrow> c = CHR ''-'');
          body = (case t of [] \<Rightarrow> [] | c # r \<Rightarrow> if c = CHR ''-'' \<or> c = CHR ''+'' then r else t);
          ds = filter (\<lambda>c. c \<noteq> CHR ''_'') body
      in if digit_groups body \<and> length ds \<le> max_str_digits
         then Some (if neg then - digits_val ds else digits_val ds)
         else None)"

datatype py_error = AttributeError | OverflowError | ValueError | TelegramError

section \<open>Dates and durations\<close>

text \<open>
  A \<open>datetime\<close> is its position on the time line in whole microseconds (the resolution
  of the type), a \<open>timedelta\<close> a number of microseconds. \<open>timedelta(...)\<close> raises
  \<open>OverflowError\<close> when the normalised number of days leaves \<open>\<plusminus>999999999\<close>.
\<close>

definition us_per_second :: int where
  "us_per_second = 1000000"

definition us_per_day :: int where
  "us_per_day = 86400 * 1000000"

definition timedelta :: "int \<Rightarrow> int \<Rightarrow> int \<Rightarrow> int \<Rightarrow> py_error + int" where
  "timedelta days seconds minutes hours =
     (let us = (((days * 24 + hours) * 60 + minutes) * 60 + seconds) * us_per_second
      in if - 999999999 \<le> us div us_per_day \<and> us div us_per_day \<le> 999999999
         then Inr us else Inl OverflowError)"

text \<open>
  An aware UTC \<open>datetime\<close> as microseconds since the epoch; the type ranges over the
  years 1 to 9999, and \<open>datetime + timedelta\<close> raises \<open>OverflowError\<close> outside.
\<close>

definition datetime_min :: int where
  "datetime_min = - 62135596800 * 1000000"

definition datetime_max :: int where
  "datetime_max = 253402300799 * 1000000 + 999999"

definition datetime_add :: "int \<Rightarrow> int \<Rightarrow> py_error + int" where
  "datetime_add t d =
     (if datetime_min \<le> t + d \<and> t + d \<le> datetime_max then Inr (t + d) else Inl OverflowError)"

text \<open>
  \<open>int(t.timestamp())\<close>: whole seconds since the epoch, truncated towards zero. The
  float returned by \<open>timestamp()\<close> is the microsecond count divided by \<open>10\<^sup>6\<close>,
  rounded once; below \<open>2\<^sup>3\<^sup>4\<close> seconds (the year 2514) the rounding never
  reaches the next whole second, and the integer division is what the code computes.
\<close>

definition timestamp_int :: "int \<Rightarrow> int" where
  "timestamp_int t = (if 0 \<le> t then t div us_per_second else - ((- t) div us_per_second))"

text \<open>
  \<open>2\<^sup>3\<^sup>4\<close> seconds in microseconds: the clock readings below it are those for
  which \<open>timestamp_int\<close> is the value the code computes.
\<close>

definition float_exact_us :: int where
  "float_exact_us = 17179869184 * 1000000"

section \<open>Data model\<close>

text \<open>
  \<open>STORE\<close> is the dictionary returned by \<open>load_store\<close>, with the four keys
  \<open>welcomes\<close>, \<open>blacklist\<close>, \<open>banned_words\<close>, \<open>warns\<close>; \<open>GLOBAL_BLACKLIST\<close> is the
  module-level set built from it. Both are module globals, so every operation takes the
  state and returns it updated. Dictionaries keyed by \<open>str(chat_id)\<close> or
  \<open>f"{chat_id}:{user_id}"\<close> are maps from strings.
\<close>

record welcome_cfg =
  cfg_text :: "string option"
  cfg_media :: "string option"
  cfg_type :: "string option"
  cfg_link :: "string option"

record bot_state =
  welcomes :: "string \<rightharpoonup> welcome_cfg"
  blacklist :: "int list"
  banned_words :: "string \<rightharpoonup> string list"
  warns :: "string \<rightharpoonup> int"
  GLOBAL_BLACKLIST :: "int set"

text \<open>The state of a process started without a snapshot file: the defaults of \<open>load_store\<close>.\<close>

definition fresh_state :: bot_state where
  "fresh_state = \<lparr> welcomes = Map.empty, blacklist = [], banned_words = Map.empty,
                   warns = Map.empty, GLOBAL_BLACKLIST = {} \<rparr>"

text \<open>
  \<open>save_store\<close> dumps \<open>STORE\<close> to the snapshot file and catches every exception of the
  write; the in-memory state, which is all the operations below read, is left as it is.
\<close>

definition save_store :: "bot_state \<Rightarrow> bot_state" where
  "save_store s = s"

section \<open>Warn ledger\<close>

definition warn_key :: "int \<Rightarrow> int \<Rightarrow> string" where
  "warn_key chat_id user_id = str_int chat_id @ '':'' @ str_int user_id"

text \<open>\<open>add_warn\<close>: \<open>STORE["warns"][key] = STORE["warns"].get(key, 0) + 1\<close>, save, return the entry.\<close>

definition add_warn :: "int \<Rightarrow> int \<Rightarrow> bot_state \<Rightarrow> int \<times> bot_state" where
  "add_warn chat_id user_id s =
     (let key = warn_key chat_id user_id;
          n = (case warns s key of None \<Rightarrow> 0 | Some c \<Rightarrow> c) + 1;
          s1 = save_store (s\<lparr>warns := (warns s)(key \<mapsto> n)\<rparr>)
      in (n, s1))"

text \<open>\<open>remove_warn\<close>: nothing for an absent key; else decrement, delete at \<open>\<le> 0\<close>, save.\<close>

definition remove_warn :: "int \<Rightarrow> int \<Rightarrow> bot_state \<Rightarrow> bot_state" where
  "remove_warn chat_id user_id s =
     (let key = warn_key chat_id user_id
      in case warns s key of
           None \<Rightarrow> s
         | Some c \<Rightarrow>
             (let c' = c - 1;
                  w = (if c' \<le> 0 then (warns s)(key := None) else (warns s)(key \<mapsto> c'))
              in save_store (s\<lparr>warns := w\<rparr>)))"

definition get_warn_count :: "int \<Rightarrow> int \<Rightarrow> bot_state \<Rightarrow> int" where
  "get_warn_count chat_id user_id s =
     (case warns s (warn_key chat_id user_id) of None \<Rightarrow> 0 | Some c \<Rightarrow> c)"

text \<open>The ledger's invariant: every stored count is positive (a zero is never stored).\<close>

definition warns_positive :: "bot_state \<Rightarrow> bool" where
  "warns_positive s = (\<forall>k c. warns s k = Some c \<longrightarrow> 0 < c)"

section \<open>Telegram objects and the transport\<close>

text \<open>
  What the handlers read of the library's objects. \<open>mention_html\<close> is the value of the
  library method \<open>User.mention_html()\<close>; \<open>first_name\<close> is a string (empty for a deleted
  account), \<open>username\<close> is optional.
\<close>

record user =
  user_id :: int
  first_name :: string
  username :: "string option"
  is_bot :: bool
  mention_html :: string

text \<open>
  A message, as far as the handlers look at it: the author of the message it replies to
  (\<open>reply_to_message.from_user\<close>, \<open>None\<close> when it is not a reply) and the members a
  join notification lists.
\<close>

record message =
  reply_to_message :: "user option"
  new_chat_members :: "user list"

text \<open>
  A membership update: \<open>from_user\<close> is the user who caused the change, \<open>old_status\<close> and
  \<open>new_status\<close> are the statuses of \<open>old_chat_member\<close> (if any) and \<open>new_chat_member\<close>,
  and \<open>cmu_member\<close> is \<open>new_chat_member.user\<close>, the member whose status changed, which
  the handler never reads.
\<close>

record chat_member_updated =
  cmu_from_user :: user
  cmu_member :: user
  old_status :: "string option"
  new_status :: string

text \<open>
  An update with its context: \<open>update.message\<close> is \<open>None\<close> for an update that is not a
  new message (an edited message, a membership update); \<open>args\<close> is \<open>context.args\<close>.
\<close>

record update =
  effective_chat_id :: int
  effective_user :: user
  message :: "message option"
  chat_member :: "chat_member_updated option"
  args :: "string list"

datatype member_ref = ById int | ByName string

record chat_member =
  cm_status :: string
  cm_user :: user

text \<open>The calls a handler makes on the bot, in the order it makes them.\<close>

datatype action =
    ReplyText string
  | RestrictChatMember int int bool "int option"
  | SendMessage int string "string option"
  | SendMedia string int string string "string option"

text \<open>
  The transport layer is outside the program: \<open>get_chat_member\<close> answers a lookup or
  raises (\<open>None\<close>), and \<open>accepts\<close> tells whether a send or restrict call goes through
  or raises.
\<close>

record transport =
  get_chat_member :: "int \<Rightarrow> member_ref \<Rightarrow> chat_member option"
  accepts :: "action \<Rightarrow> bool"

datatype outcome = Returned | Raised py_error

type_synonym result = "bot_state \<times> action list \<times> outcome"

section \<open>Utilities\<close>

text \<open>\<open>is_admin\<close>: the member's status is administrator or creator; any exception is False.\<close>

definition is_admin :: "transport \<Rightarrow> int \<Rightarrow> int \<Rightarrow> bool" where
  "is_admin tr chat_id uid =
     (case get_chat_member tr chat_id (ById uid) of
        None \<Rightarrow> False
      | Some m \<Rightarrow> cm_status m = ''administrator'' \<or> cm_status m = ''creator'')"

definition is_globally_blacklisted :: "bot_state \<Rightarrow> int \<Rightarrow> bool" where
  "is_globally_blacklisted s uid = (uid \<in> GLOBAL_BLACKLIST s)"

text \<open>
  \<open>has_banned_word\<close>: \<open>words = STORE["banned_words"].get(str(chat_id), [])\<close>, then
  \<open>any(w.lower() in text.lower() for w in words)\<close>.
\<close>

definition chat_words :: "bot_state \<Rightarrow> int \<Rightarrow> string list" where
  "chat_words s chat_id = (case banned_words s (str_int chat_id) of None \<Rightarrow> [] | Some l \<Rightarrow> l)"

definition has_banned_word :: "bot_state \<Rightarrow> int \<Rightarrow> string \<Rightarrow> bool" where
  "has_banned_word s chat_id txt =
     list_ex (\<lambda>w. str_contains (str_lower txt) (str_lower w)) (chat_words s chat_id)"

text \<open>
  \<open>re.match(r"(\d+)([smhd]?)", s)\<close>: the two groups, or \<open>None\<close>. The match is anchored at
  the start; \<open>\d+\<close> takes the whole leading run of digits, the unit is the next character
  when it is one of \<open>s m h d\<close>.
\<close>

definition match_duration :: "string \<Rightarrow> (string \<times> string) option" where
  "match_duration s =
     (let ds = takeWhile is_digit s; rest = dropWhile is_digit s
      in if ds = [] then None
         else Some (ds, case rest of [] \<Rightarrow> [] | c # _ \<Rightarrow> if c \<in> set ''smhd'' then [c] else []))"

text \<open>
  \<open>parse_duration\<close>. The dictionary literal builds all four durations before the lookup,
  in the order s, m, h, d, and then the default of \<open>.get\<close>; the first constructor that
  raises ends the call.
\<close>

definition parse_duration :: "string \<Rightarrow> py_error + int" where
  "parse_duration s =
     (case match_duration (str_lower s) of
        None \<Rightarrow> timedelta 0 0 0 1
      | Some (g1, g2) \<Rightarrow>
          (case int_of_str g1 of
             None \<Rightarrow> Inl ValueError
           | Some num \<Rightarrow>
               (let unit = (if g2 = [] then ''h'' else g2) in
                case timedelta 0 num 0 0 of Inl e \<Rightarrow> Inl e | Inr ds \<Rightarrow>
                case timedelta 0 0 num 0 of Inl e \<Rightarrow> Inl e | Inr dm \<Rightarrow>
                case timedelta 0 0 0 num of Inl e \<Rightarrow> Inl e | Inr dh \<Rightarrow>
                case timedelta num 0 0 0 of Inl e \<Rightarrow> Inl e | Inr dd \<Rightarrow>
                case timedelta 0 0 0 1 of Inl e \<Rightarrow> Inl e | Inr dflt \<Rightarrow>
                  Inr (case map_of [(''s'', ds), (''m'', dm), (''h'', dh), (''d'', dd)] unit of
                         None \<Rightarrow> dflt
                       | Some d \<Rightarrow> d))))"

text \<open>
  \<open>get_target_user\<close>. Reading \<open>update.message.reply_to_message\<close> raises
  \<open>AttributeError\<close> when the update has no message; the two lookups and \<open>int(arg)\<close> are
  inside \<open>try ... except: pass\<close>.
\<close>

definition get_target_user :: "transport \<Rightarrow> update \<Rightarrow> py_error + user option" where
  "get_target_user tr upd =
     (case message upd of
        None \<Rightarrow> Inl AttributeError
      | Some m \<Rightarrow>
          (case reply_to_message m of
             Some author \<Rightarrow> Inr (Some author)
           | None \<Rightarrow>
               (case args upd of
                  [] \<Rightarrow> Inr None
                | arg # _ \<Rightarrow>
                    (case (if prefix ''@'' arg
                           then get_chat_member tr (effective_chat_id upd) (ByName arg)
                           else None) of
                       Some mem \<Rightarrow> Inr (Some (cm_user mem))
                     | None \<Rightarrow>
                         (case int_of_str arg of
                            None \<Rightarrow> Inr None
                          | Some uid \<Rightarrow>
                              (case get_chat_member tr (effective_chat_id upd) (ById uid) of
                                 Some mem \<Rightarrow> Inr (Some (cm_user mem))
                               | None \<Rightarrow> Inr None))))))"

section \<open>Command handlers\<close>

text \<open>
  A handler's last statement is \<open>update.message.reply_text(...)\<close>: without a message
  the attribute access raises, else the call is made, and may raise.
\<close>

definition reply_last :: "transport \<Rightarrow> update \<Rightarrow> bot_state \<Rightarrow> string \<Rightarrow> result" where
  "reply_last tr upd s txt =
     (case message upd of
        None \<Rightarrow> (s, [], Raised AttributeError)
      | Some m \<Rightarrow>
          (s, [ReplyText txt], if accepts tr (ReplyText txt) then Returned else Raised TelegramError))"

definition hour_us :: int where
  "hour_us = 3600 * 1000000"

text \<open>
  \<open>warn\<close>. After the warn is counted and announced, a count of 3 or more mutes the user
  until one hour from \<open>now\<close>, announces it, and pops the ledger entry. \<open>now\<close> is the
  reading of \<open>datetime.now(timezone.utc)\<close>.
\<close>

definition warn :: "transport \<Rightarrow> int \<Rightarrow> update \<Rightarrow> bot_state \<Rightarrow> result" where
  "warn tr now upd s =
     (let chat = effective_chat_id upd in
      if \<not> is_admin tr chat (user_id (effective_user upd)) then (s, [], Returned)
      else case get_target_user tr upd of
         Inl e \<Rightarrow> (s, [], Raised e)
       | Inr None \<Rightarrow> reply_last tr upd s ''Reply or mention user''
       | Inr (Some u) \<Rightarrow>
           (let (count, s1) = add_warn chat (user_id u) s;
                a1 = ReplyText (''Warned '' @ mention_html u @ '' ('' @ str_int count @ ''/3)'')
            in if \<not> accepts tr a1 then (s1, [a1], Raised TelegramError)
               else if count \<ge> 3 then
                 (case datetime_add now hour_us of
                    Inl e \<Rightarrow> (s1, [a1], Raised e)
                  | Inr t \<Rightarrow>
                     (let a2 = RestrictChatMember chat (user_id u) False (Some (timestamp_int t));
                          a3 = ReplyText (first_name u @ '' auto-muted for 1 hour (3 warns)'')
                      in if \<not> accepts tr a2 then (s1, [a1, a2], Raised TelegramError)
                         else if \<not> accepts tr a3 then (s1, [a1, a2, a3], Raised TelegramError)
                         else (save_store (s1\<lparr>warns := (warns s1)(warn_key chat (user_id u) := None)\<rparr>),
                               [a1, a2, a3], Returned)))
               else (s1, [a1], Returned)))"

text \<open>\<open>mute\<close>: the duration is the last argument, \<open>"1h"\<close> when there is none.\<close>

definition mute :: "transport \<Rightarrow> int \<Rightarrow> update \<Rightarrow> bot_state \<Rightarrow> result" where
  "mute tr now upd s =
     (let chat = effective_chat_id upd in
      if \<not> is_admin tr chat (user_id (effective_user upd)) then (s, [], Returned)
      else case get_target_user tr upd of
         Inl e \<Rightarrow> (s, [], Raised e)
       | Inr None \<Rightarrow> reply_last tr upd s ''Reply + time (e.g. /mute 10m)''
       | Inr (Some u) \<Rightarrow>
           (let dur = (if args upd = [] then ''1h'' else last (args upd))
            in case parse_duration dur of
                 Inl e \<Rightarrow> (s, [], Raised e)
               | Inr d \<Rightarrow>
                   (case datetime_add now d of
                      Inl e \<Rightarrow> (s, [], Raised e)
                    | Inr t \<Rightarrow>
                       (let a1 = RestrictChatMember chat (user_id u) False (Some (timestamp_int t))
                        in if \<not> accepts tr a1 then (s, [a1], Raised TelegramError)
                           else (case reply_last tr upd s (first_name u @ '' muted for '' @ dur) of
                                   (s', as, out) \<Rightarrow> (s', a1 # as, out))))))"

text \<open>\<open>addword\<close>: the lowercased words, joined by spaces, are appended unless already there.\<close>

definition addword :: "transport \<Rightarrow> update \<Rightarrow> bot_state \<Rightarrow> result" where
  "addword tr upd s =
     (if \<not> is_admin tr (effective_chat_id upd) (user_id (effective_user upd)) then (s, [], Returned)
      else if args upd = [] then reply_last tr upd s ''Usage: /addword badword''
      else
        (let word = str_lower (str_join '' '' (args upd));
             chat = str_int (effective_chat_id upd);
             ws = (case banned_words s chat of None \<Rightarrow> [] | Some l \<Rightarrow> l);
             s1 = s\<lparr>banned_words := (banned_words s)(chat \<mapsto> ws)\<rparr>;
             s2 = (if word \<notin> set ws
                   then save_store (s1\<lparr>banned_words := (banned_words s1)(chat \<mapsto> ws @ [word])\<rparr>)
                   else s1)
         in reply_last tr upd s2 (''Word '' @ [CHR 0x27] @ word @ [CHR 0x27] @ '' banned in this group'')))"

text \<open>The welcome entry of a chat, created empty by \<open>setdefault(chat_id, {})\<close>.\<close>

definition empty_cfg :: welcome_cfg where
  "empty_cfg = \<lparr> cfg_text = None, cfg_media = None, cfg_type = None, cfg_link = None \<rparr>"

definition welcome_entry :: "bot_state \<Rightarrow> string \<Rightarrow> welcome_cfg" where
  "welcome_entry s chat = (case welcomes s chat of None \<Rightarrow> empty_cfg | Some c \<Rightarrow> c)"

definition setwelcometext :: "transport \<Rightarrow> update \<Rightarrow> bot_state \<Rightarrow> result" where
  "setwelcometext tr upd s =
     (if \<not> is_admin tr (effective_chat_id upd) (user_id (effective_user upd)) then (s, [], Returned)
      else if args upd = [] then reply_last tr upd s ''Usage: /setwelcometext Welcome {first}!''
      else
        (let chat = str_int (effective_chat_id upd);
             cfg = (welcome_entry s chat)\<lparr>cfg_text := Some (str_join '' '' (args upd))\<rparr>
         in reply_last tr upd (save_store (s\<lparr>welcomes := (welcomes s)(chat \<mapsto> cfg)\<rparr>))
              ''Welcome text saved!''))"

text \<open>
  \<open>setchannellink\<close>: the first argument is the link; \<open>"https://"\<close> is put in front unless
  the link starts with \<open>"http"\<close> or with \<open>"t.me"\<close>.
\<close>

definition setchannellink :: "transport \<Rightarrow> update \<Rightarrow> bot_state \<Rightarrow> result" where
  "setchannellink tr upd s =
     (if \<not> is_admin tr (effective_chat_id upd) (user_id (effective_user upd)) then (s, [], Returned)
      else case args upd of
         [] \<Rightarrow> reply_last tr upd s ''Usage: /setchannellink https://t.me/example''
       | a # _ \<Rightarrow>
          (let link = (if \<not> (prefix ''http'' a \<or> prefix ''t.me'' a) then ''https://'' @ a else a);
               chat = str_int (effective_chat_id upd);
               cfg = (welcome_entry s chat)\<lparr>cfg_link := Some link\<rparr>
           in reply_last tr upd (save_store (s\<lparr>welcomes := (welcomes s)(chat \<mapsto> cfg)\<rparr>))
                ''Channel link button saved!''))"

section \<open>Welcome rendering\<close>

text \<open>\<open>cfg.get(k)\<close> used as a condition: a missing value and an empty string are both false.\<close>

definition truthy :: "string option \<Rightarrow> bool" where
  "truthy v = (case v of None \<Rightarrow> False | Some x \<Rightarrow> x \<noteq> [])"

text \<open>The four \<open>replace\<close> calls on the template, in the order of the source.\<close>

definition welcome_text :: "string \<Rightarrow> user \<Rightarrow> string" where
  "welcome_text template member =
     str_replace ''{username}''
        (if truthy (username member) then CHR ''@'' # the (username member) else first_name member)
       (str_replace ''{id}'' (str_int (user_id member))
         (str_replace ''{mention}'' (mention_html member)
           (str_replace ''{first}'' (if first_name member = [] then ''User'' else first_name member)
              template)))"

text \<open>
  The send call for one member. The button is there when a link is set; with media the
  text is the caption and the kind selects the call, and a kind outside the three raises
  \<open>KeyError\<close> inside the \<open>try\<close>, so that nothing is sent for that member.
\<close>

definition welcome_call :: "welcome_cfg \<Rightarrow> int \<Rightarrow> string \<Rightarrow> action option" where
  "welcome_call cfg chat_id txt =
     (let markup = (if truthy (cfg_link cfg) then cfg_link cfg else None)
      in if truthy (cfg_media cfg) then
           (let mtype = (case cfg_type cfg of None \<Rightarrow> ''photo'' | Some k \<Rightarrow> k)
            in if mtype \<in> set [''photo'', ''animation'', ''video'']
               then Some (SendMedia mtype chat_id (the (cfg_media cfg)) txt markup)
               else None)
         else Some (SendMessage chat_id txt markup))"

text \<open>
  \<open>_send_welcome\<close>: nothing without a template text; else one call per member. An
  exception of a send is caught and logged, so the handler always returns.
\<close>

definition send_welcome :: "bot_state \<Rightarrow> int \<Rightarrow> user list \<Rightarrow> result" where
  "send_welcome s chat_id members =
     (let cfg = welcome_entry s (str_int chat_id)
      in if \<not> truthy (cfg_text cfg) then (s, [], Returned)
         else (s, List.map_filter
                    (\<lambda>member. welcome_call cfg chat_id (welcome_text (the (cfg_text cfg)) member))
                    members,
               Returned))"

definition legacy_welcome :: "update \<Rightarrow> bot_state \<Rightarrow> result" where
  "legacy_welcome upd s =
     (case message upd of
        None \<Rightarrow> (s, [], Returned)
      | Some m \<Rightarrow>
          if new_chat_members m \<noteq> [] then send_welcome s (effective_chat_id upd) (new_chat_members m)
          else (s, [], Returned))"

definition welcome_new_member :: "update \<Rightarrow> bot_state \<Rightarrow> result" where
  "welcome_new_member upd s =
     (case chat_member upd of
        None \<Rightarrow> (s, [], Returned)
      | Some cmu \<Rightarrow>
          (let u = cmu_from_user cmu in
           if old_status cmu \<in> {Some ''member'', Some ''administrator'', Some ''creator''}
              \<or> new_status cmu \<noteq> ''member'' then (s, [], Returned)
           else if is_bot u \<or> is_globally_blacklisted s (user_id u) then (s, [], Returned)
           else send_welcome s (effective_chat_id upd) [u]))"

text \<open>The text an outgoing call carries: the message text, or the caption of the media.\<close>

fun call_text :: "action \<Rightarrow> string" where
  "call_text (ReplyText t) = t"
| "call_text (SendMessage c t l) = t"
| "call_text (SendMedia k c f t l) = t"
| "call_text (RestrictChatMember c u p d) = []"

text \<open>
  The template as the specification reads it: a sequence of literal text and of the four
  placeholders, each placeholder standing for one value of the member. \<open>substituted\<close>
  puts the values in, all at once.
\<close>

datatype piece = Lit string | First | Mention | Id | Username

fun piece_source :: "piece \<Rightarrow> string" where
  "piece_source (Lit t) = t"
| "piece_source First = ''{first}''"
| "piece_source Mention = ''{mention}''"
| "piece_source Id = ''{id}''"
| "piece_source Username = ''{username}''"

definition template_of :: "piece list \<Rightarrow> string" where
  "template_of ps = concat (map piece_source ps)"

fun piece_value :: "user \<Rightarrow> piece \<Rightarrow> string" where
  "piece_value m (Lit t) = t"
| "piece_value m First = first_name m"
| "piece_value m Mention = mention_html m"
| "piece_value m Id = str_int (user_id m)"
| "piece_value m Username =
     (case username m of None \<Rightarrow> first_name m | Some n \<Rightarrow> CHR ''@'' # n)"

definition substituted :: "user \<Rightarrow> piece list \<Rightarrow> string" where
  "substituted m ps = concat (map (piece_value m) ps)"

section \<open>Storage\<close>

text \<open>
  \<open>load_store\<close> works on what \<open>json.load\<close> returns, before any field is read: a JSON
  value, objects being dictionaries in insertion order.
\<close>

datatype json =
    JNull
  | JBool bool
  | JInt int
  | JFloat string
  | JStr string
  | JArr "json list"
  | JObj "(string \<times> json) list"

text \<open>
  The snapshot file at start-up: not there; there, but opening, decoding or parsing it
  raises; or parsed to a JSON value.
\<close>

datatype snapshot = Missing | Unreadable | Parsed json

definition default_doc :: "(string \<times> json) list" where
  "default_doc = [(''welcomes'', JObj []), (''blacklist'', JArr []),
                  (''banned_words'', JObj []), (''warns'', JObj [])]"

text \<open>\<open>d.setdefault(k, v)\<close>: a key that is there keeps its value, a new key goes last.\<close>

definition setdefault :: "(string \<times> json) list \<Rightarrow> string \<Rightarrow> json \<Rightarrow> (string \<times> json) list" where
  "setdefault d k v = (if map_of d k = None then d @ [(k, v)] else d)"

text \<open>
  \<open>load_store\<close>: the parsed dictionary with the missing defaults added. A parsed value
  that is not a dictionary has no \<open>setdefault\<close>; that \<open>AttributeError\<close> is caught like
  every other exception of the \<open>try\<close>, and the defaults are returned.
\<close>

definition load_store :: "snapshot \<Rightarrow> (string \<times> json) list" where
  "load_store snap =
     (case snap of
        Parsed (JObj d) \<Rightarrow> foldl (\<lambda>acc (k, v). setdefault acc k v) d default_doc
      | _ \<Rightarrow> default_doc)"

section \<open>AI request gate\<close>

text \<open>
  \<open>COOLDOWN\<close> is 1.5 seconds; clock readings of \<open>datetime.now()\<close> are whole microseconds,
  so \<open>(now - last).total_seconds() >= COOLDOWN\<close> is \<open>now - last \<ge> 1500000\<close>.
\<close>

definition COOLDOWN :: int where
  "COOLDOWN = 1500000"

definition granted :: "int \<Rightarrow> int option \<Rightarrow> bool" where
  "granted now l = (case l of None \<Rightarrow> True | Some t \<Rightarrow> now - t \<ge> COOLDOWN)"

text \<open>
  One call of \<open>can_use_ai(uid)\<close>, by the point it has reached: waiting for
  \<open>locks[uid]\<close>; inside the \<open>async with\<close>; after \<open>now = datetime.now()\<close>; after
  \<open>last = ....get(user_id)\<close>; returned, with its result and the \<open>now\<close> it used.
\<close>

datatype call = Waiting | Entered | ReadNow int | ReadLast int "int option" | Finished bool int

text \<open>
  A step of one call. The clock reading \<open>clock\<close> is used by the step that reads it.
  A waiting call enters only when the lock of its user is free. The last step decides,
  stores the timestamp on a grant, and leaves the \<open>async with\<close>, which frees the lock.
\<close>

definition step_call ::
  "int \<Rightarrow> int \<Rightarrow> call \<Rightarrow> int set \<Rightarrow> (int \<rightharpoonup> int) \<Rightarrow> call \<times> int set \<times> (int \<rightharpoonup> int)" where
  "step_call uid clock c L lu =
     (case c of
        Waiting \<Rightarrow> if uid \<in> L then (Waiting, L, lu) else (Entered, insert uid L, lu)
      | Entered \<Rightarrow> (ReadNow clock, L, lu)
      | ReadNow n \<Rightarrow> (ReadLast n (lu uid), L, lu)
      | ReadLast n l \<Rightarrow>
          if granted n l then (Finished True n, L - {uid}, lu(uid \<mapsto> n))
          else (Finished False n, L - {uid}, lu)
      | Finished r n \<Rightarrow> (Finished r n, L, lu))"

text \<open>Two calls for the same user in flight, over the shared locks and timestamps.\<close>

record gate =
  locks :: "int set"
  last_used :: "int \<rightharpoonup> int"
  call_a :: call
  call_b :: call

datatype turn = A | B

definition step :: "int \<Rightarrow> gate \<Rightarrow> turn \<times> int \<Rightarrow> gate" where
  "step uid g ev =
     (case ev of
        (A, clock) \<Rightarrow>
          (case step_call uid clock (call_a g) (locks g) (last_used g) of
             (c, L, lu) \<Rightarrow> g\<lparr>locks := L, last_used := lu, call_a := c\<rparr>)
      | (B, clock) \<Rightarrow>
          (case step_call uid clock (call_b g) (locks g) (last_used g) of
             (c, L, lu) \<Rightarrow> g\<lparr>locks := L, last_used := lu, call_b := c\<rparr>))"

text \<open>A schedule is the order in which the event loop runs the calls, with the clock.\<close>

definition run :: "int \<Rightarrow> gate \<Rightarrow> (turn \<times> int) list \<Rightarrow> gate" where
  "run uid g sched = foldl (step uid) g sched"

definition gate_start :: "(int \<rightharpoonup> int) \<Rightarrow> gate" where
  "gate_start lu = \<lparr> locks = {}, last_used = lu, call_a = Waiting, call_b = Waiting \<rparr>"

text \<open>A call run alone, start to end, at one clock reading: the function as written.\<close>

definition can_use_ai :: "int \<Rightarrow> int \<Rightarrow> (int \<rightharpoonup> int) \<Rightarrow> bool \<times> (int \<rightharpoonup> int)" where
  "can_use_ai uid now lu =
     (if granted now (lu uid) then (True, lu(uid \<mapsto> now)) else (False, lu))"

text \<open>
  What holds of every state the two calls can reach from \<open>gate_start lu0\<close>: the lock
  of the user is held exactly while one call is inside the \<open>async with\<close>, and by one
  call only; a call that has read \<open>last\<close> has read the stored timestamp; a single granted
  call has left its \<open>now\<close> as the stored timestamp; two granted calls lie a cooldown
  apart; without a grant the timestamps are those of the start; and a denied call was
  denied against a grant of the other call or against the timestamp of the start.
\<close>

fun holding :: "call \<Rightarrow> bool" where
  "holding Entered = True"
| "holding (ReadNow n) = True"
| "holding (ReadLast n l) = True"
| "holding c = False"

fun was_granted :: "call \<Rightarrow> bool" where
  "was_granted (Finished r n) = r"
| "was_granted c = False"

definition gate_inv :: "int \<Rightarrow> (int \<rightharpoonup> int) \<Rightarrow> gate \<Rightarrow> bool" where
  "gate_inv uid lu0 g =
     ((uid \<in> locks g \<longleftrightarrow> holding (call_a g) \<or> holding (call_b g))
      \<and> \<not> (holding (call_a g) \<and> holding (call_b g))
      \<and> (\<forall>n l. call_a g = ReadLast n l \<longrightarrow> l = last_used g uid)
      \<and> (\<forall>n l. call_b g = ReadLast n l \<longrightarrow> l = last_used g uid)
      \<and> (\<forall>n. call_a g = Finished True n \<and> \<not> was_granted (call_b g) \<longrightarrow> last_used g uid = Some n)
      \<and> (\<forall>n. call_b g = Finished True n \<and> \<not> was_granted (call_a g) \<longrightarrow> last_used g uid = Some n)
      \<and> (\<forall>n m. call_a g = Finished True n \<and> call_b g = Finished True m \<longrightarrow>
             n - m \<ge> COOLDOWN \<or> m - n \<ge> COOLDOWN)
      \<and> (\<not> was_granted (call_a g) \<and> \<not> was_granted (call_b g) \<longrightarrow> last_used g uid = lu0 uid)
      \<and> (\<forall>n. call_a g = Finished False n \<longrightarrow> was_granted (call_b g) \<or> \<not> granted n (lu0 uid))
      \<and> (\<forall>n. call_b g = Finished False n \<longrightarrow> was_granted (call_a g) \<or> \<not> granted n (lu0 uid)))"

section \<open>Sample objects\<close>

text \<open>Concrete users, updates and a transport, for evaluating the handlers.\<close>

definition ann :: user where
  "ann = \<lparr> user_id = 42, first_name = ''Ann'', username = Some ''ann42'', is_bot = False,
           mention_html = ''<a href=\"tg://user?id=42\">Ann</a>'' \<rparr>"

definition bob :: user where
  "bob = \<lparr> user_id = 43, first_name = ''Bob'', username = None, is_bot = False,
           mention_html = ''<a href=\"tg://user?id=43\">Bob</a>'' \<rparr>"

definition eve :: user where
  "eve = \<lparr> user_id = 7, first_name = ''Eve'', username = None, is_bot = False,
           mention_html = ''<a href=\"tg://user?id=7\">Eve</a>'' \<rparr>"

definition curly :: user where
  "curly = \<lparr> user_id = 8, first_name = ''{id}'', username = None, is_bot = False,
             mention_html = ''<a href=\"tg://user?id=8\">{id}</a>'' \<rparr>"

definition boss :: user where
  "boss = \<lparr> user_id = 1, first_name = ''Boss'', username = Some ''boss'', is_bot = False,
            mention_html = ''<a href=\"tg://user?id=1\">Boss</a>'' \<rparr>"

text \<open>
  A chat where user 1 is the creator, users 42, 43 and 7 are members, \<open>@ann42\<close> resolves
  to Ann, and every send goes through.
\<close>

definition sample_transport :: transport where
  "sample_transport =
     \<lparr> get_chat_member =
         (\<lambda>chat r. case r of
            ById i \<Rightarrow>
              (if i = 1 then Some \<lparr> cm_status = ''creator'', cm_user = boss \<rparr>
               else if i = 42 then Some \<lparr> cm_status = ''member'', cm_user = ann \<rparr>
               else if i = 43 then Some \<lparr> cm_status = ''member'', cm_user = bob \<rparr>
               else if i = 7 then Some \<lparr> cm_status = ''member'', cm_user = eve \<rparr>
               else None)
          | ByName n \<Rightarrow>
              (if n = ''@ann42'' then Some \<lparr> cm_status = ''member'', cm_user = ann \<rparr> else None)),
       accepts = (\<lambda>a. True) \<rparr>"

text \<open>
  The same chat seen by a bot whose restrict calls are refused, as they are when the
  target is an administrator or the bot has no right to restrict.
\<close>

definition refusing_transport :: transport where
  "refusing_transport =
     sample_transport
       \<lparr> accepts := (\<lambda>a. case a of RestrictChatMember c u p d \<Rightarrow> False | _ \<Rightarrow> True) \<rparr>"

text \<open>A command sent by \<open>u\<close> in chat \<open>chat\<close>, replying to \<open>r\<close>'s message if any.\<close>

definition command :: "int \<Rightarrow> user \<Rightarrow> user option \<Rightarrow> string list \<Rightarrow> update" where
  "command chat u r as =
     \<lparr> effective_chat_id = chat, effective_user = u,
       message = Some \<lparr> reply_to_message = r, new_chat_members = [] \<rparr>,
       chat_member = None, args = as \<rparr>"

text \<open>
  The same command arriving as an edit of an earlier message: the update carries the
  edited message, and \<open>update.message\<close> is \<open>None\<close>.
\<close>

definition edited_command :: "int \<Rightarrow> user \<Rightarrow> string list \<Rightarrow> update" where
  "edited_command chat u as =
     \<lparr> effective_chat_id = chat, effective_user = u, message = None,
       chat_member = None, args = as \<rparr>"

text \<open>The service message, sent in the name of \<open>actor\<close>, listing the members who joined \<open>chat\<close>.\<close>

definition join_message :: "int \<Rightarrow> user \<Rightarrow> user list \<Rightarrow> update" where
  "join_message chat actor members =
     \<lparr> effective_chat_id = chat, effective_user = actor,
       message = Some \<lparr> reply_to_message = None, new_chat_members = members \<rparr>,
       chat_member = None, args = [] \<rparr>"

text \<open>
  The membership update of \<open>u\<close> becoming a member of \<open>chat\<close> through \<open>actor\<close>: \<open>u\<close>
  themselves when they join by a link, another user when that user adds them.
\<close>

definition join_update :: "int \<Rightarrow> user \<Rightarrow> user \<Rightarrow> update" where
  "join_update chat actor u =
     \<lparr> effective_chat_id = chat, effective_user = actor, message = None,
       chat_member = Some \<lparr> cmu_from_user = actor, cmu_member = u,
                            old_status = Some ''left'', new_status = ''member'' \<rparr>,
       args = [] \<rparr>"

text \<open>
  The state of a process where chat 5 has the welcome text \<open>Hi {first}\<close> and user 7 is
  on the global blacklist.
\<close>

definition eve_state :: bot_state where
  "eve_state = fresh_state
     \<lparr> welcomes := [''5'' \<mapsto> empty_cfg\<lparr>cfg_text := Some ''Hi {first}''\<rparr>],
       blacklist := [7], GLOBAL_BLACKLIST := {7} \<rparr>"

text \<open>The fresh state after an administrator of chat 5 has set a welcome text with all four placeholders.\<close>

definition greeting_state :: bot_state where
  "greeting_state =
     fst (setwelcometext sample_transport
            (command 5 boss None [''Hi'', ''{first}'', ''{mention}'', ''{id}'', ''{username}''])
            fresh_state)"

section \<open>Replies and targets\<close>

lemma fst_reply_last: "fst (reply_last tr upd s txt) = s"
  by (simp add: reply_last_def split: option.splits)

lemma reply_last_message:
  "message upd = Some m \<Longrightarrow>
     reply_last tr upd s txt =
       (s, [ReplyText txt], if accepts tr (ReplyText txt) then Returned else Raised TelegramError)"
  by (simp add: reply_last_def)

lemma get_target_user_no_message:
  "message upd = None \<Longrightarrow> get_target_user tr upd = Inl AttributeError"
  by (simp add: get_target_user_def)

lemma target_has_message:
  "get_target_user tr upd = Inr r \<Longrightarrow> \<exists>m. message upd = Some m"
  by (cases "message upd") (simp_all add: get_target_user_def)

section \<open>Properties of the warn ledger\<close>

lemma add_warn_keeps_positive:
  "warns_positive s \<Longrightarrow> warns_positive (snd (add_warn chat uid s))"
proof -
  assume pos: "warns_positive s"
  have old: "0 \<le> (case warns s (warn_key chat uid) of None \<Rightarrow> 0 | Some c \<Rightarrow> c)"
  proof (cases "warns s (warn_key chat uid)")
    case None
    then show ?thesis by simp
  next
    case (Some c)
    with pos have "0 < c" unfolding warns_positive_def by blast
    with Some show ?thesis by simp
  qed
  show ?thesis
    unfolding warns_positive_def
  proof (intro allI impI)
    fix k c
    assume e: "warns (snd (add_warn chat uid s)) k = Some c"
    show "0 < c"
    proof (cases "k = warn_key chat uid")
      case True
      with e old show ?thesis
        by (simp add: add_warn_def save_store_def Let_def)
    next
      case False
      with e have "warns s k = Some c"
        by (simp add: add_warn_def save_store_def Let_def)
      with pos show ?thesis unfolding warns_positive_def by blast
    qed
  qed
qed

lemma remove_warn_keeps_positive:
  "warns_positive s \<Longrightarrow> warns_positive (remove_warn chat uid s)"
  by (auto simp: warns_positive_def remove_warn_def save_store_def Let_def
           split: option.splits if_splits)

lemma positive_count_nonneg:
  "warns_positive s \<Longrightarrow> 0 \<le> get_warn_count chat uid s"
proof (cases "warns s (warn_key chat uid)")
  case None
  then show ?thesis by (simp add: get_warn_count_def)
next
  case (Some c)
  assume "warns_positive s"
  with Some have "0 < c" unfolding warns_positive_def by blast
  with Some show ?thesis by (simp add: get_warn_count_def)
qed

text \<open>
  Claim C3. For every (chat, user) pair whose count is not negative (absent, or a stored
  count \<open>\<ge> 0\<close>), \<open>add_warn\<close> followed by \<open>remove_warn\<close> brings \<open>get_warn_count\<close> back
  to its prior value; a prior count of 0 ends as an absent entry, which reads back as 0,
  and a positive prior count ends stored as it was. No other key of the ledger changes.
\<close>

theorem add_then_remove_warn_restores:
  assumes "0 \<le> get_warn_count chat uid s"
  shows "get_warn_count chat uid (remove_warn chat uid (snd (add_warn chat uid s)))
           = get_warn_count chat uid s
       \<and> warns (remove_warn chat uid (snd (add_warn chat uid s))) (warn_key chat uid)
           = (if get_warn_count chat uid s = 0 then None
              else Some (get_warn_count chat uid s))
       \<and> (\<forall>k. k \<noteq> warn_key chat uid \<longrightarrow>
             warns (remove_warn chat uid (snd (add_warn chat uid s))) k = warns s k)"
  using assms
  by (auto simp: get_warn_count_def remove_warn_def add_warn_def save_store_def Let_def
           split: option.splits)

theorem add_then_remove_warn_restores_witness:
  "0 \<le> get_warn_count 5 7 fresh_state
   \<and> get_warn_count 5 7 (remove_warn 5 7 (snd (add_warn 5 7 fresh_state))) = 0
   \<and> warns (remove_warn 5 7 (snd (add_warn 5 7 fresh_state))) (warn_key 5 7) = None"
proof -
  have h: "0 \<le> get_warn_count 5 7 fresh_state"
    by (simp add: get_warn_count_def fresh_state_def)
  have z: "get_warn_count 5 7 fresh_state = 0"
    by (simp add: get_warn_count_def fresh_state_def)
  show ?thesis
    using h z add_then_remove_warn_restores [OF h] by simp
qed

section \<open>Channel link\<close>

lemma sample_admin: "is_admin sample_transport chat 1"
  by (simp add: is_admin_def sample_transport_def)

text \<open>
  Claim C4, as amended. When an administrator sets a channel link, the link stored for
  the chat is the first argument as given if it starts with \<open>"http"\<close> or with
  \<open>"t.me"\<close>, and \<open>"https://"\<close> followed by the argument otherwise.
\<close>

theorem setchannellink_stores_link:
  assumes "is_admin tr (effective_chat_id upd) (user_id (effective_user upd))"
    and "args upd = a # rest"
  shows "cfg_link (welcome_entry (fst (setchannellink tr upd s)) (str_int (effective_chat_id upd)))
           = Some (if prefix ''http'' a \<or> prefix ''t.me'' a then a else ''https://'' @ a)"
  using assms
  by (simp add: setchannellink_def fst_reply_last save_store_def welcome_entry_def Let_def)

theorem setchannellink_stores_link_witness:
  "is_admin sample_transport 5 1
   \<and> cfg_link (welcome_entry
        (fst (setchannellink sample_transport (command 5 boss None [''example.org/x'']) fresh_state))
        (str_int 5)) = Some ''https://example.org/x''"
proof -
  have adm: "is_admin sample_transport (effective_chat_id (command 5 boss None [''example.org/x'']))
               (user_id (effective_user (command 5 boss None [''example.org/x''])))"
    by (simp add: command_def boss_def sample_admin)
  have ar: "args (command 5 boss None [''example.org/x'']) = ''example.org/x'' # []"
    by (simp add: command_def)
  show ?thesis
    using setchannellink_stores_link [OF adm ar, of fresh_state] sample_admin [of 5]
    by (simp add: command_def)
qed

text \<open>
  The claim as stated fails at its own example: the link \<open>"t.me/x"\<close> starts with
  \<open>"t.me"\<close>, so it is stored as it is, without the scheme.
\<close>

theorem setchannellink_tme_counterexample:
  "cfg_link (welcome_entry
      (fst (setchannellink sample_transport (command 5 boss None [''t.me/x'']) fresh_state))
      (str_int 5)) = Some ''t.me/x''
   \<and> cfg_link (welcome_entry
      (fst (setchannellink sample_transport (command 5 boss None [''t.me/x'']) fresh_state))
      (str_int 5)) \<noteq> Some ''https://t.me/x''"
  by (simp add: setchannellink_def fst_reply_last save_store_def welcome_entry_def Let_def
        command_def boss_def sample_admin)

section \<open>Loading the snapshot\<close>

lemma setdefault_lookup:
  "map_of (setdefault d k v) k' =
     (case map_of d k' of Some x \<Rightarrow> Some x | None \<Rightarrow> if k' = k then Some v else None)"
  by (auto simp: setdefault_def map_of_append map_add_def split: option.splits)

lemma load_store_lookup:
  "map_of (load_store (Parsed (JObj d))) k =
     (case map_of d k of
        Some v \<Rightarrow> Some v
      | None \<Rightarrow>
          if k = ''welcomes'' \<or> k = ''banned_words'' \<or> k = ''warns'' then Some (JObj [])
          else if k = ''blacklist'' then Some (JArr [])
          else None)"
  by (simp add: load_store_def default_doc_def setdefault_lookup split: option.splits)

lemma load_store_not_object:
  "(\<forall>d. j \<noteq> JObj d) \<Longrightarrow>
     load_store (Parsed j) = [(''welcomes'', JObj []), (''blacklist'', JArr []),
                              (''banned_words'', JObj []), (''warns'', JObj [])]"
  by (cases j) (simp_all add: load_store_def default_doc_def)

lemma load_store_no_snapshot:
  "load_store Missing = [(''welcomes'', JObj []), (''blacklist'', JArr []),
                         (''banned_words'', JObj []), (''warns'', JObj [])]"
  "load_store Unreadable = [(''welcomes'', JObj []), (''blacklist'', JArr []),
                            (''banned_words'', JObj []), (''warns'', JObj [])]"
  by (simp_all add: load_store_def default_doc_def)

lemma load_store_has_fields:
  assumes "k \<in> set [''welcomes'', ''blacklist'', ''banned_words'', ''warns'']"
  shows "\<exists>v. map_of (load_store snap) k = Some v"
proof (cases snap)
  case Missing
  with assms show ?thesis by (auto simp: load_store_no_snapshot)
next
  case Unreadable
  with assms show ?thesis by (auto simp: load_store_no_snapshot)
next
  case (Parsed j)
  show ?thesis
  proof (cases "\<exists>d. j = JObj d")
    case True
    then obtain d where "j = JObj d" by blast
    with Parsed assms show ?thesis
      by (auto simp: load_store_lookup split: option.splits)
  next
    case False
    then have "load_store (Parsed j) = [(''welcomes'', JObj []), (''blacklist'', JArr []),
                              (''banned_words'', JObj []), (''warns'', JObj [])]"
      by (simp add: load_store_not_object)
    with Parsed assms show ?thesis by auto
  qed
qed

text \<open>
  Claim C8. \<open>load_store\<close> returns a dictionary for every state of the snapshot file,
  and the four top-level fields are always in it. A missing file, and a file that cannot
  be read or parsed, give the pure defaults: an empty dictionary for \<open>welcomes\<close>,
  \<open>banned_words\<close> and \<open>warns\<close>, an empty list for \<open>blacklist\<close>; so does a parsed value
  that is not a dictionary. A parsed dictionary keeps every field it has and gets the empty
  default for each of the four it lacks.
\<close>

theorem load_store_total:
  "(\<forall>k \<in> set [''welcomes'', ''blacklist'', ''banned_words'', ''warns''].
        \<exists>v. map_of (load_store snap) k = Some v)
   \<and> load_store Missing = [(''welcomes'', JObj []), (''blacklist'', JArr []),
                            (''banned_words'', JObj []), (''warns'', JObj [])]
   \<and> load_store Unreadable = [(''welcomes'', JObj []), (''blacklist'', JArr []),
                               (''banned_words'', JObj []), (''warns'', JObj [])]
   \<and> (\<forall>j. (\<forall>d. j \<noteq> JObj d) \<longrightarrow>
          load_store (Parsed j) = [(''welcomes'', JObj []), (''blacklist'', JArr []),
                                   (''banned_words'', JObj []), (''warns'', JObj [])])
   \<and> (\<forall>d k. map_of (load_store (Parsed (JObj d))) k =
          (case map_of d k of
             Some v \<Rightarrow> Some v
           | None \<Rightarrow>
               if k = ''welcomes'' \<or> k = ''banned_words'' \<or> k = ''warns'' then Some (JObj [])
               else if k = ''blacklist'' then Some (JArr [])
               else None))"
proof (intro conjI ballI allI impI)
  fix k assume "k \<in> set [''welcomes'', ''blacklist'', ''banned_words'', ''warns'']"
  then show "\<exists>v. map_of (load_store snap) k = Some v"
    by (rule load_store_has_fields)
next
  show "load_store Missing = [(''welcomes'', JObj []), (''blacklist'', JArr []),
                            (''banned_words'', JObj []), (''warns'', JObj [])]"
    by (rule load_store_no_snapshot)
next
  show "load_store Unreadable = [(''welcomes'', JObj []), (''blacklist'', JArr []),
                               (''banned_words'', JObj []), (''warns'', JObj [])]"
    by (rule load_store_no_snapshot)
next
  fix j assume "\<forall>d. j \<noteq> JObj d"
  then show "load_store (Parsed j) = [(''welcomes'', JObj []), (''blacklist'', JArr []),
                                   (''banned_words'', JObj []), (''warns'', JObj [])]"
    by (rule load_store_not_object)
next
  fix d k
  show "map_of (load_store (Parsed (JObj d))) k =
          (case map_of d k of
             Some v \<Rightarrow> Some v
           | None \<Rightarrow>
               if k = ''welcomes'' \<or> k = ''banned_words'' \<or> k = ''warns'' then Some (JObj [])
               else if k = ''blacklist'' then Some (JArr [])
               else None)"
    by (rule load_store_lookup)
qed

theorem load_store_total_witness:
  "map_of (load_store (Parsed (JObj [(''warns'', JObj [(''5:7'', JInt 2)])]))) ''warns''
      = Some (JObj [(''5:7'', JInt 2)])
   \<and> map_of (load_store (Parsed (JObj [(''warns'', JObj [(''5:7'', JInt 2)])]))) ''blacklist''
      = Some (JArr [])
   \<and> map_of (load_store (Parsed (JObj [(''warns'', JObj [(''5:7'', JInt 2)])]))) ''welcomes''
      = Some (JObj [])
   \<and> map_of (load_store (Parsed (JObj [(''warns'', JObj [(''5:7'', JInt 2)])]))) ''banned_words''
      = Some (JObj [])
   \<and> load_store (Parsed (JArr [])) = [(''welcomes'', JObj []), (''blacklist'', JArr []),
                                        (''banned_words'', JObj []), (''warns'', JObj [])]"
proof -
  note t = load_store_total [of Missing]
  have a: "\<forall>d k. map_of (load_store (Parsed (JObj d))) k =
          (case map_of d k of
             Some v \<Rightarrow> Some v
           | None \<Rightarrow>
               if k = ''welcomes'' \<or> k = ''banned_words'' \<or> k = ''warns'' then Some (JObj [])
               else if k = ''blacklist'' then Some (JArr [])
               else None)"
    using t by (elim conjE)
  have b: "\<forall>j. (\<forall>d. j \<noteq> JObj d) \<longrightarrow>
          load_store (Parsed j) = [(''welcomes'', JObj []), (''blacklist'', JArr []),
                                   (''banned_words'', JObj []), (''warns'', JObj [])]"
    using t by (elim conjE)
  have c: "load_store (Parsed (JArr [])) = [(''welcomes'', JObj []), (''blacklist'', JArr []),
                                        (''banned_words'', JObj []), (''warns'', JObj [])]"
    using b by simp
  show ?thesis
    using a c by simp
qed

section \<open>Joins of blacklisted users\<close>

lemmas str_eval = str_int_def str_digits.simps digit_char_def

text \<open>The membership-update path checks the blacklist before it renders anything.\<close>

lemma welcome_new_member_skips_blacklisted:
  assumes "chat_member upd = Some cmu"
    and "is_globally_blacklisted s (user_id (cmu_from_user cmu))"
  shows "welcome_new_member upd s = (s, [], Returned)"
  using assms by (simp add: welcome_new_member_def Let_def)

text \<open>
  Claim C5. A join of a globally blacklisted user must not produce a welcome on any
  join-notification path. The path of the join service message, \<open>legacy_welcome\<close>, has no
  blacklist check: with user 7 blacklisted and the welcome text \<open>Hi {first}\<close> set for chat
  5, the join message listing user 7 sends \<open>Hi Eve\<close>, while the membership update of the
  same join sends nothing. The membership-update path checks the user who caused the
  change: when the creator adds user 7, it sends a welcome too, addressed to the creator.
\<close>

theorem legacy_welcome_greets_blacklisted:
  "is_globally_blacklisted eve_state (user_id eve)
   \<and> fst (snd (legacy_welcome (join_message 5 eve [eve]) eve_state)) = [SendMessage 5 ''Hi Eve'' None]
   \<and> fst (snd (welcome_new_member (join_update 5 eve eve) eve_state)) = []
   \<and> fst (snd (welcome_new_member (join_update 5 boss eve) eve_state)) = [SendMessage 5 ''Hi Boss'' None]"
  by (simp add: legacy_welcome_def join_message_def join_update_def eve_state_def
        welcome_new_member_def is_globally_blacklisted_def eve_def boss_def
        send_welcome_def welcome_entry_def fresh_state_def empty_cfg_def truthy_def
        welcome_text_def welcome_call_def List.map_filter_def str_eval Let_def)

section \<open>Target resolution\<close>

text \<open>
  Claim C9, as amended. For every update that carries a message, \<open>get_target_user\<close>
  returns and does not raise. If the message is a reply, the result is the reply's
  author. Otherwise, with a first argument: an argument starting with \<open>@\<close> is looked up
  as a handle, and the member found is the result; when that lookup fails (or the
  argument is no handle) the argument is read as a number and looked up as an id, and the
  member found is the result. A failed lookup or a failed conversion is no match, never
  an exception. The result is \<open>None\<close> exactly when the message is not a reply and there
  is no argument or both branches fail. Nothing is stated for an update without a
  message.
\<close>

theorem get_target_user_precedence:
  assumes "message upd = Some m"
  shows "(\<exists>r. get_target_user tr upd = Inr r)
    \<and> (\<forall>author. reply_to_message m = Some author \<longrightarrow> get_target_user tr upd = Inr (Some author))
    \<and> (\<forall>arg rest mem. reply_to_message m = None \<and> args upd = arg # rest \<and> prefix ''@'' arg
           \<and> get_chat_member tr (effective_chat_id upd) (ByName arg) = Some mem
         \<longrightarrow> get_target_user tr upd = Inr (Some (cm_user mem)))
    \<and> (\<forall>arg rest n mem. reply_to_message m = None \<and> args upd = arg # rest
           \<and> (\<not> prefix ''@'' arg \<or> get_chat_member tr (effective_chat_id upd) (ByName arg) = None)
           \<and> int_of_str arg = Some n
           \<and> get_chat_member tr (effective_chat_id upd) (ById n) = Some mem
         \<longrightarrow> get_target_user tr upd = Inr (Some (cm_user mem)))
    \<and> (get_target_user tr upd = Inr None \<longleftrightarrow>
          reply_to_message m = None
          \<and> (args upd = []
             \<or> ((\<not> prefix ''@'' (hd (args upd))
                   \<or> get_chat_member tr (effective_chat_id upd) (ByName (hd (args upd))) = None)
                \<and> (case int_of_str (hd (args upd)) of
                      None \<Rightarrow> True
                    | Some n \<Rightarrow> get_chat_member tr (effective_chat_id upd) (ById n) = None))))"
  using assms
  by (auto simp: get_target_user_def split: option.splits list.splits)

lemmas int_of_str_eval =
  int_of_str_def is_space_def is_digit_def digits_val_def digit_val_def max_str_digits_def

theorem get_target_user_precedence_witness:
  "message (command 5 boss (Some eve) [''@ann42''])
      = Some \<lparr> reply_to_message = Some eve, new_chat_members = [] \<rparr>
   \<and> get_target_user sample_transport (command 5 boss (Some eve) [''@ann42'']) = Inr (Some eve)
   \<and> get_target_user sample_transport (command 5 boss None [''@ann42'']) = Inr (Some ann)
   \<and> get_target_user sample_transport (command 5 boss None [''43'']) = Inr (Some bob)
   \<and> get_target_user sample_transport (command 5 boss None [''@nobody'']) = Inr None
   \<and> get_target_user sample_transport (command 5 boss None []) = Inr None"
proof -
  have m: "message (command 5 boss (Some eve) [''@ann42''])
             = Some \<lparr> reply_to_message = Some eve, new_chat_members = [] \<rparr>"
    by (simp add: command_def)
  have r: "get_target_user sample_transport (command 5 boss (Some eve) [''@ann42'']) = Inr (Some eve)"
    using get_target_user_precedence [OF m, of sample_transport] by simp
  have rest: "get_target_user sample_transport (command 5 boss None [''@ann42'']) = Inr (Some ann)"
    "get_target_user sample_transport (command 5 boss None [''43'']) = Inr (Some bob)"
    "get_target_user sample_transport (command 5 boss None [''@nobody'']) = Inr None"
    "get_target_user sample_transport (command 5 boss None []) = Inr None"
    by (simp_all add: get_target_user_def command_def sample_transport_def int_of_str_eval)
  from m r rest show ?thesis by simp
qed

text \<open>
  The claim as stated is for every event. A command that arrives as an edited message
  has no \<open>update.message\<close>: the first line of \<open>get_target_user\<close> raises
  \<open>AttributeError\<close> before any branch is tried, where the same command sent as a new
  message resolves its argument.
\<close>

theorem get_target_user_edited_counterexample:
  "get_target_user sample_transport (edited_command 5 boss [''@ann42'']) = Inl AttributeError
   \<and> get_target_user sample_transport (command 5 boss None [''@ann42'']) = Inr (Some ann)"
  by (simp add: get_target_user_def edited_command_def command_def sample_transport_def)

section \<open>Banned words\<close>

lemma str_contains_iff: "str_contains t w \<longleftrightarrow> (\<exists>ps ss. t = ps @ w @ ss)"
proof (induction t)
  case Nil
  then show ?case by auto
next
  case (Cons c cs)
  have "(\<exists>ps ss. c # cs = ps @ w @ ss) \<longleftrightarrow> prefix w (c # cs) \<or> (\<exists>ps ss. cs = ps @ w @ ss)"
  proof
    assume "\<exists>ps ss. c # cs = ps @ w @ ss"
    then obtain ps ss where e: "c # cs = ps @ w @ ss" by blast
    show "prefix w (c # cs) \<or> (\<exists>ps ss. cs = ps @ w @ ss)"
    proof (cases ps)
      case Nil
      with e have "prefix w (c # cs)" by (simp add: prefix_def)
      then show ?thesis ..
    next
      case (Cons p ps')
      with e have "cs = ps' @ w @ ss" by simp
      then show ?thesis by blast
    qed
  next
    assume "prefix w (c # cs) \<or> (\<exists>ps ss. cs = ps @ w @ ss)"
    then show "\<exists>ps ss. c # cs = ps @ w @ ss"
    proof
      assume "prefix w (c # cs)"
      then obtain ss where "c # cs = w @ ss" by (auto simp: prefix_def)
      then have "c # cs = [] @ w @ ss" by simp
      then show ?thesis by blast
    next
      assume "\<exists>ps ss. cs = ps @ w @ ss"
      then obtain ps ss where "cs = ps @ w @ ss" by blast
      then have "c # cs = (c # ps) @ w @ ss" by simp
      then show ?thesis by blast
    qed
  qed
  with Cons show ?case by simp
qed

lemma has_banned_word_iff:
  "has_banned_word s chat txt \<longleftrightarrow>
     (\<exists>w \<in> set (chat_words s chat). \<exists>ps ss. str_lower txt = ps @ str_lower w @ ss)"
  by (simp add: has_banned_word_def list_ex_iff str_contains_iff)

lemma str_lower_append: "str_lower (a @ b) = str_lower a @ str_lower b"
  by (simp add: str_lower_def)

lemma addword_words:
  assumes "is_admin tr (effective_chat_id upd) (user_id (effective_user upd))"
    and "args upd \<noteq> []"
  shows "str_lower (str_join '' '' (args upd)) \<in> set (chat_words (fst (addword tr upd s)) (effective_chat_id upd))"
  using assms
  by (auto simp: addword_def chat_words_def fst_reply_last save_store_def Let_def split: option.splits)

lemma lower_badword: "str_lower ''badword'' = ''badword''"
  by (simp add: str_lower_def lower_char_def)

text \<open>
  Claim C6. \<open>has_banned_word\<close> is true exactly when some word stored for the chat,
  lowercased, occurs as a contiguous run anywhere in the lowercased text; there is no
  word-boundary condition. After an administrator's \<open>/addword badword\<close>, every text that
  contains \<open>badword\<close> in any mix of cases matches. From the fresh state, after
  \<open>/addword spam\<close> in chat 100, \<open>no spam here\<close> matches and \<open>clean text\<close> does not.
\<close>

theorem banned_word_matching:
  "(has_banned_word s chat txt \<longleftrightarrow>
      (\<exists>w \<in> set (chat_words s chat). \<exists>ps ss. str_lower txt = ps @ str_lower w @ ss))
   \<and> (\<forall>tr upd pre v post.
         is_admin tr (effective_chat_id upd) (user_id (effective_user upd))
         \<and> args upd = [''badword''] \<and> str_lower v = ''badword''
       \<longrightarrow> has_banned_word (fst (addword tr upd s)) (effective_chat_id upd) (pre @ v @ post))
   \<and> has_banned_word (fst (addword sample_transport (command 100 boss None [''spam'']) fresh_state))
        100 ''no spam here''
   \<and> \<not> has_banned_word (fst (addword sample_transport (command 100 boss None [''spam'']) fresh_state))
        100 ''clean text''"
proof -
  have b: "has_banned_word (fst (addword tr upd s)) (effective_chat_id upd) (pre @ v @ post)"
    if adm: "is_admin tr (effective_chat_id upd) (user_id (effective_user upd))"
      and ar: "args upd = [''badword'']" and v: "str_lower v = ''badword''"
    for tr upd pre v post
  proof -
    from ar have ne: "args upd \<noteq> []" by simp
    have "str_lower (str_join '' '' (args upd)) = ''badword''"
      by (simp add: ar lower_badword)
    with addword_words [OF adm ne, of s]
    have mem: "''badword'' \<in> set (chat_words (fst (addword tr upd s)) (effective_chat_id upd))"
      by simp
    have "str_lower (pre @ v @ post) = str_lower pre @ str_lower ''badword'' @ str_lower post"
      by (simp add: str_lower_append v lower_badword)
    with mem show ?thesis
      unfolding has_banned_word_iff by blast
  qed
  have words: "chat_words (fst (addword sample_transport (command 100 boss None [''spam'']) fresh_state)) 100
                = [''spam'']"
    by (simp add: addword_def command_def boss_def is_admin_def sample_transport_def
          fst_reply_last save_store_def chat_words_def fresh_state_def str_lower_def lower_char_def
          Let_def)
  have c: "has_banned_word (fst (addword sample_transport (command 100 boss None [''spam'']) fresh_state))
        100 ''no spam here''"
    by (simp add: has_banned_word_def words str_lower_def lower_char_def)
  have d: "\<not> has_banned_word (fst (addword sample_transport (command 100 boss None [''spam'']) fresh_state))
        100 ''clean text''"
    by (simp add: has_banned_word_def words str_lower_def lower_char_def)
  from has_banned_word_iff b c d show ?thesis by blast
qed

theorem banned_word_matching_witness:
  "is_admin sample_transport 100 1
   \<and> str_lower ''BadWord'' = ''badword''
   \<and> has_banned_word (fst (addword sample_transport (command 100 boss None [''badword'']) fresh_state))
        100 ''this contains BadWord here''"
proof -
  have adm: "is_admin sample_transport (effective_chat_id (command 100 boss None [''badword'']))
               (user_id (effective_user (command 100 boss None [''badword''])))"
    by (simp add: command_def boss_def is_admin_def sample_transport_def)
  have ar: "args (command 100 boss None [''badword'']) = [''badword'']"
    by (simp add: command_def)
  have lo: "str_lower ''BadWord'' = ''badword''"
    by (simp add: str_lower_def lower_char_def)
  have "has_banned_word (fst (addword sample_transport (command 100 boss None [''badword'']) fresh_state))
          (effective_chat_id (command 100 boss None [''badword'']))
          (''this contains '' @ ''BadWord'' @ '' here'')"
    using banned_word_matching [of fresh_state 0 "[]"] adm ar lo by blast
  then have "has_banned_word (fst (addword sample_transport (command 100 boss None [''badword'']) fresh_state))
          100 ''this contains BadWord here''"
    by (simp add: command_def)
  moreover have "is_admin sample_transport 100 1"
    by (simp add: is_admin_def sample_transport_def)
  ultimately show ?thesis using lo by simp
qed

section \<open>Escalation at three warns\<close>

lemma timestamp_plus_hour:
  "0 \<le> t \<Longrightarrow> timestamp_int (t + hour_us) = timestamp_int t + 3600"
  by (simp add: timestamp_int_def hour_us_def us_per_second_def)

lemma add_warn_count:
  "fst (add_warn chat uid s) = get_warn_count chat uid s + 1
   \<and> get_warn_count chat uid (snd (add_warn chat uid s)) = get_warn_count chat uid s + 1"
  by (simp add: add_warn_def get_warn_count_def save_store_def Let_def)

lemma warn_below_threshold:
  assumes "is_admin tr (effective_chat_id upd) (user_id (effective_user upd))"
    and "get_target_user tr upd = Inr (Some u)"
    and "accepts tr (ReplyText (''Warned '' @ mention_html u @ '' ('' @ str_int (get_warn_count (effective_chat_id upd) (user_id u) s + 1) @ ''/3)''))"
    and "get_warn_count (effective_chat_id upd) (user_id u) s + 1 < 3"
  shows "warn tr now upd s =
           (snd (add_warn (effective_chat_id upd) (user_id u) s),
            [ReplyText (''Warned '' @ mention_html u @ '' ('' @ str_int (get_warn_count (effective_chat_id upd) (user_id u) s + 1) @ ''/3)'')],
            Returned)"
  using assms add_warn_count [of "effective_chat_id upd" "user_id u" s]
  by (simp add: warn_def Let_def split_beta)

lemma warn_at_threshold:
  assumes "is_admin tr (effective_chat_id upd) (user_id (effective_user upd))"
    and "get_target_user tr upd = Inr (Some u)"
    and "accepts tr (ReplyText (''Warned '' @ mention_html u @ '' ('' @ str_int (get_warn_count (effective_chat_id upd) (user_id u) s + 1) @ ''/3)''))"
    and "accepts tr (RestrictChatMember (effective_chat_id upd) (user_id u) False (Some (timestamp_int now + 3600)))"
    and "accepts tr (ReplyText (first_name u @ '' auto-muted for 1 hour (3 warns)''))"
    and "3 \<le> get_warn_count (effective_chat_id upd) (user_id u) s + 1"
    and "0 \<le> now" and "now + hour_us < float_exact_us"
  shows "fst (snd (warn tr now upd s)) =
            [ReplyText (''Warned '' @ mention_html u @ '' ('' @ str_int (get_warn_count (effective_chat_id upd) (user_id u) s + 1) @ ''/3)''),
             RestrictChatMember (effective_chat_id upd) (user_id u) False (Some (timestamp_int now + 3600)),
             ReplyText (first_name u @ '' auto-muted for 1 hour (3 warns)'')]
       \<and> snd (snd (warn tr now upd s)) = Returned
       \<and> get_warn_count (effective_chat_id upd) (user_id u) (fst (warn tr now upd s)) = 0"
proof -
  have dt: "datetime_add now hour_us = Inr (now + hour_us)"
    using assms(7,8)
    by (simp add: datetime_add_def datetime_min_def datetime_max_def hour_us_def float_exact_us_def)
  show ?thesis
    using assms(1-6) add_warn_count [of "effective_chat_id upd" "user_id u" s] dt
      timestamp_plus_hour [OF assms(7)]
    by (simp add: warn_def Let_def split_beta get_warn_count_def save_store_def)
qed

text \<open>
  When the restrict call is refused the handler ends there: the entry is not popped.
\<close>

lemma warn_restrict_refused:
  assumes "is_admin tr (effective_chat_id upd) (user_id (effective_user upd))"
    and "get_target_user tr upd = Inr (Some u)"
    and "accepts tr (ReplyText (''Warned '' @ mention_html u @ '' ('' @ str_int (get_warn_count (effective_chat_id upd) (user_id u) s + 1) @ ''/3)''))"
    and "\<not> accepts tr (RestrictChatMember (effective_chat_id upd) (user_id u) False (Some (timestamp_int now + 3600)))"
    and "3 \<le> get_warn_count (effective_chat_id upd) (user_id u) s + 1"
    and "0 \<le> now" and "now + hour_us < float_exact_us"
  shows "snd (snd (warn tr now upd s)) = Raised TelegramError
       \<and> get_warn_count (effective_chat_id upd) (user_id u) (fst (warn tr now upd s))
           = get_warn_count (effective_chat_id upd) (user_id u) s + 1"
proof -
  have dt: "datetime_add now hour_us = Inr (now + hour_us)"
    using assms(6,7)
    by (simp add: datetime_add_def datetime_min_def datetime_max_def hour_us_def float_exact_us_def)
  show ?thesis
    using assms(1-5) add_warn_count [of "effective_chat_id upd" "user_id u" s] dt
      timestamp_plus_hour [OF assms(6)]
    by (simp add: warn_def Let_def split_beta)
qed

text \<open>
  Claim C2, as amended. Starting from an absent ledger entry for (chat, user), three
  consecutive \<open>add_warn\<close> calls return 1, 2 and 3. Run through the \<open>/warn\<close> handler by
  an administrator on a resolved target, with the transport accepting the calls the
  handler makes (the three announcements, the restrict call and its announcement) and a
  clock reading before \<open>2\<^sup>3\<^sup>4\<close> seconds, the first two warns announce 1/3 and 2/3
  and leave the counts 1 and 2; the third announces 3/3, mutes the user until 3600 seconds
  after the clock reading, and pops the entry, so that \<open>get_warn_count\<close> is 0
  afterwards. Nothing is stated for a transport that refuses one of the calls.
\<close>

theorem three_warns_escalate:
  assumes absent: "warns s (warn_key (effective_chat_id upd) (user_id u)) = None"
    and adm: "is_admin tr (effective_chat_id upd) (user_id (effective_user upd))"
    and target: "get_target_user tr upd = Inr (Some u)"
    and ok1: "accepts tr (ReplyText (''Warned '' @ mention_html u @ '' (1/3)''))"
    and ok2: "accepts tr (ReplyText (''Warned '' @ mention_html u @ '' (2/3)''))"
    and ok3: "accepts tr (ReplyText (''Warned '' @ mention_html u @ '' (3/3)''))"
    and ok4: "accepts tr (RestrictChatMember (effective_chat_id upd) (user_id u) False
                            (Some (timestamp_int n3 + 3600)))"
    and ok5: "accepts tr (ReplyText (first_name u @ '' auto-muted for 1 hour (3 warns)''))"
    and clock: "0 \<le> n3" "n3 + hour_us < float_exact_us"
  shows "fst (add_warn (effective_chat_id upd) (user_id u) s) = 1
    \<and> fst (add_warn (effective_chat_id upd) (user_id u)
              (snd (add_warn (effective_chat_id upd) (user_id u) s))) = 2
    \<and> fst (add_warn (effective_chat_id upd) (user_id u)
              (snd (add_warn (effective_chat_id upd) (user_id u)
                 (snd (add_warn (effective_chat_id upd) (user_id u) s))))) = 3
    \<and> fst (snd (warn tr n1 upd s)) = [ReplyText (''Warned '' @ mention_html u @ '' (1/3)'')]
    \<and> get_warn_count (effective_chat_id upd) (user_id u) (fst (warn tr n1 upd s)) = 1
    \<and> fst (snd (warn tr n2 upd (fst (warn tr n1 upd s))))
         = [ReplyText (''Warned '' @ mention_html u @ '' (2/3)'')]
    \<and> get_warn_count (effective_chat_id upd) (user_id u)
         (fst (warn tr n2 upd (fst (warn tr n1 upd s)))) = 2
    \<and> fst (snd (warn tr n3 upd (fst (warn tr n2 upd (fst (warn tr n1 upd s))))))
         = [ReplyText (''Warned '' @ mention_html u @ '' (3/3)''),
            RestrictChatMember (effective_chat_id upd) (user_id u) False (Some (timestamp_int n3 + 3600)),
            ReplyText (first_name u @ '' auto-muted for 1 hour (3 warns)'')]
    \<and> get_warn_count (effective_chat_id upd) (user_id u)
         (fst (warn tr n3 upd (fst (warn tr n2 upd (fst (warn tr n1 upd s)))))) = 0"
proof -
  define chat where "chat = effective_chat_id upd"
  define uid where "uid = user_id u"
  define a1 where "a1 = snd (add_warn chat uid s)"
  define a2 where "a2 = snd (add_warn chat uid a1)"
  have c0: "get_warn_count chat uid s = 0"
    using absent by (simp add: get_warn_count_def chat_def uid_def)
  have c1: "fst (add_warn chat uid s) = 1" "get_warn_count chat uid a1 = 1"
    using add_warn_count [of chat uid s] c0 by (simp_all add: a1_def)
  have c2: "fst (add_warn chat uid a1) = 2" "get_warn_count chat uid a2 = 2"
    using add_warn_count [of chat uid a1] c1 by (simp_all add: a2_def)
  have c3: "fst (add_warn chat uid a2) = 3"
    using add_warn_count [of chat uid a2] c2 by simp
  have digits: "str_int 1 = ''1''" "str_int 2 = ''2''" "str_int 3 = ''3''"
    by (simp_all add: str_eval)
  have w1: "warn tr n1 upd s = (a1, [ReplyText (''Warned '' @ mention_html u @ '' (1/3)'')], Returned)"
    using warn_below_threshold [OF adm target, of s n1] ok1 c0 digits
    by (simp add: chat_def uid_def a1_def)
  have w2: "warn tr n2 upd a1 = (a2, [ReplyText (''Warned '' @ mention_html u @ '' (2/3)'')], Returned)"
    using warn_below_threshold [OF adm target, of a1 n2] ok2 c1 digits
    by (simp add: chat_def uid_def a2_def)
  have w3: "fst (snd (warn tr n3 upd a2)) =
            [ReplyText (''Warned '' @ mention_html u @ '' (3/3)''),
             RestrictChatMember chat uid False (Some (timestamp_int n3 + 3600)),
             ReplyText (first_name u @ '' auto-muted for 1 hour (3 warns)'')]
       \<and> get_warn_count chat uid (fst (warn tr n3 upd a2)) = 0"
    using warn_at_threshold [OF adm target _ _ ok5 _ clock, of a2] ok3 ok4 c2 digits
    by (simp add: chat_def uid_def)
  from c1 c2 c3 w1 w2 w3 show ?thesis
    by (simp add: chat_def uid_def a1_def a2_def)
qed

lemma sample_accepts: "accepts sample_transport a"
  by (simp add: sample_transport_def)

theorem three_warns_escalate_witness:
  "warns fresh_state (warn_key 5 43) = None
   \<and> is_admin sample_transport 5 1
   \<and> get_target_user sample_transport (command 5 boss (Some bob) []) = Inr (Some bob)
   \<and> fst (snd (warn sample_transport 1700000000000000 (command 5 boss (Some bob) [])
        (fst (warn sample_transport 1700000000000000 (command 5 boss (Some bob) [])
          (fst (warn sample_transport 1700000000000000 (command 5 boss (Some bob) []) fresh_state))))))
       = [ReplyText (''Warned '' @ mention_html bob @ '' (3/3)''),
          RestrictChatMember 5 43 False (Some 1700003600),
          ReplyText ''Bob auto-muted for 1 hour (3 warns)'']
   \<and> get_warn_count 5 43
        (fst (warn sample_transport 1700000000000000 (command 5 boss (Some bob) [])
          (fst (warn sample_transport 1700000000000000 (command 5 boss (Some bob) [])
            (fst (warn sample_transport 1700000000000000 (command 5 boss (Some bob) []) fresh_state))))))
       = 0"
proof -
  let ?upd = "command 5 boss (Some bob) []"
  have absent: "warns fresh_state (warn_key (effective_chat_id ?upd) (user_id bob)) = None"
    by (simp add: fresh_state_def)
  have adm: "is_admin sample_transport (effective_chat_id ?upd) (user_id (effective_user ?upd))"
    by (simp add: command_def boss_def is_admin_def sample_transport_def)
  have target: "get_target_user sample_transport ?upd = Inr (Some bob)"
    by (simp add: get_target_user_def command_def)
  have clock: "(0::int) \<le> 1700000000000000" "1700000000000000 + hour_us < float_exact_us"
    by (simp_all add: hour_us_def float_exact_us_def)
  have ts: "timestamp_int 1700000000000000 + 3600 = 1700003600"
    by (simp add: timestamp_int_def us_per_second_def)
  have ids: "effective_chat_id ?upd = 5" "user_id bob = 43" "first_name bob = ''Bob''"
    by (simp_all add: command_def bob_def)
  show ?thesis
    using three_warns_escalate [OF absent adm target sample_accepts sample_accepts
        sample_accepts sample_accepts sample_accepts clock,
        of 1700000000000000 1700000000000000] absent adm target ts sample_admin [of 5]
    by (simp add: ids)
qed

text \<open>
  The claim as stated promises a count of 0 after the third warn. With a bot whose
  restrict call is refused, the third warn raises at that call, before the pop: the
  count stays 3.
\<close>

theorem three_warns_mute_refused_counterexample:
  "snd (snd (warn refusing_transport 1700000000000000 (command 5 boss (Some bob) [])
        (fst (warn refusing_transport 1700000000000000 (command 5 boss (Some bob) [])
          (fst (warn refusing_transport 1700000000000000 (command 5 boss (Some bob) []) fresh_state))))))
       = Raised TelegramError
   \<and> get_warn_count 5 43
        (fst (warn refusing_transport 1700000000000000 (command 5 boss (Some bob) [])
          (fst (warn refusing_transport 1700000000000000 (command 5 boss (Some bob) [])
            (fst (warn refusing_transport 1700000000000000 (command 5 boss (Some bob) []) fresh_state))))))
       = 3"
proof -
  let ?upd = "command 5 boss (Some bob) []"
  have adm: "is_admin refusing_transport (effective_chat_id ?upd) (user_id (effective_user ?upd))"
    by (simp add: command_def boss_def is_admin_def refusing_transport_def sample_transport_def)
  have target: "get_target_user refusing_transport ?upd = Inr (Some bob)"
    by (simp add: get_target_user_def command_def)
  have replies: "accepts refusing_transport (ReplyText t)" for t
    by (simp add: refusing_transport_def sample_transport_def)
  have refused: "\<not> accepts refusing_transport (RestrictChatMember c v p d)" for c v p d
    by (simp add: refusing_transport_def sample_transport_def)
  have clock: "(0::int) \<le> 1700000000000000" "1700000000000000 + hour_us < float_exact_us"
    by (simp_all add: hour_us_def float_exact_us_def)
  have ids: "effective_chat_id ?upd = 5" "user_id bob = 43"
    by (simp_all add: command_def bob_def)
  define s1 where "s1 = fst (warn refusing_transport 1700000000000000 ?upd fresh_state)"
  define s2 where "s2 = fst (warn refusing_transport 1700000000000000 ?upd s1)"
  have c0: "get_warn_count 5 43 fresh_state = 0"
    by (simp add: get_warn_count_def fresh_state_def)
  have c1: "get_warn_count 5 43 s1 = 1"
    using warn_below_threshold [OF adm target, of fresh_state 1700000000000000] replies c0
      add_warn_count [of 5 43 fresh_state]
    by (simp add: ids s1_def)
  have c2: "get_warn_count 5 43 s2 = 2"
    using warn_below_threshold [OF adm target, of s1 1700000000000000] replies c1
      add_warn_count [of 5 43 s1]
    by (simp add: ids s2_def)
  have "snd (snd (warn refusing_transport 1700000000000000 ?upd s2)) = Raised TelegramError
        \<and> get_warn_count 5 43 (fst (warn refusing_transport 1700000000000000 ?upd s2)) = 3"
    using warn_restrict_refused [OF adm target replies refused _ clock, of s2] c2
    by (simp add: ids)
  then show ?thesis by (simp add: s1_def s2_def)
qed

section \<open>Mute durations\<close>

lemma digit_not_space: "is_digit c \<Longrightarrow> \<not> is_space c"
  by (auto simp: is_digit_def is_space_def)

lemma digit_not_sign: "is_digit c \<Longrightarrow> c \<noteq> CHR ''-'' \<and> c \<noteq> CHR ''+'' \<and> c \<noteq> CHR ''_''"
  by (auto simp: is_digit_def)

lemma dropWhile_keeps: "xs \<noteq> [] \<Longrightarrow> \<not> P (hd xs) \<Longrightarrow> dropWhile P xs = xs"
  by (cases xs) auto

lemma strip_digits:
  assumes "ds \<noteq> []" and "\<forall>c \<in> set ds. is_digit c"
  shows "dropWhile is_space (rev (dropWhile is_space (rev ds))) = ds"
proof -
  have "\<not> is_space (hd (rev ds))"
    using assms by (simp add: hd_rev digit_not_space)
  then have "dropWhile is_space (rev ds) = rev ds"
    using assms(1) by (simp add: dropWhile_keeps)
  moreover have "\<not> is_space (hd ds)"
    using assms by (simp add: digit_not_space)
  ultimately show ?thesis
    using assms(1) by (simp add: dropWhile_keeps)
qed

lemma digit_groups_digits:
  "ds \<noteq> [] \<Longrightarrow> \<forall>c \<in> set ds. is_digit c \<Longrightarrow> digit_groups ds"
  by (induction ds rule: digit_groups.induct) (auto simp: digit_not_sign)

lemma int_of_str_digits:
  assumes "ds \<noteq> []" and "\<forall>c \<in> set ds. is_digit c" and "length ds \<le> max_str_digits"
  shows "int_of_str ds = Some (digits_val ds)"
proof -
  obtain c r where ds: "ds = c # r" using assms(1) by (cases ds) auto
  with assms(2) have c: "c \<noteq> CHR ''-''" "c \<noteq> CHR ''+''" by (auto simp: digit_not_sign)
  have f: "filter (\<lambda>c. c \<noteq> CHR ''_'') ds = ds"
    using assms(2) by (simp add: filter_id_conv digit_not_sign)
  show ?thesis
    unfolding int_of_str_def strip_digits [OF assms(1,2)]
    using c assms(3) digit_groups_digits [OF assms(1,2)] f
    by (simp add: ds Let_def)
qed

lemma digit_val_nonneg: "0 \<le> digit_val c"
  by (auto simp: digit_val_def split: option.splits if_splits)

lemma foldl_digits_nonneg:
  "0 \<le> acc \<Longrightarrow> 0 \<le> foldl (\<lambda>acc c. 10 * acc + digit_val c) acc ds"
  by (induction ds arbitrary: acc) (simp_all add: digit_val_nonneg)

lemma digits_val_nonneg: "0 \<le> digits_val ds"
  by (simp add: digits_val_def foldl_digits_nonneg)

lemma match_duration_None:
  "match_duration t = None \<longleftrightarrow> t = [] \<or> \<not> is_digit (hd t)"
  by (cases t) (auto simp: match_duration_def Let_def)

lemma match_duration_split:
  assumes "ds \<noteq> []" and "\<forall>c \<in> set ds. is_digit c" and "rest = [] \<or> \<not> is_digit (hd rest)"
  shows "match_duration (ds @ rest) =
           Some (ds, case rest of [] \<Rightarrow> [] | c # _ \<Rightarrow> if c \<in> set ''smhd'' then [c] else [])"
proof -
  have t: "takeWhile is_digit (ds @ rest) = ds"
    using assms(2,3) by (cases rest) (simp_all add: takeWhile_append2)
  have d: "dropWhile is_digit (ds @ rest) = rest"
    using assms(2,3) by (cases rest) (simp_all add: dropWhile_append2)
  show ?thesis
    unfolding match_duration_def t d using assms(1) by (simp add: Let_def)
qed

lemma timedelta_in_range:
  assumes "0 \<le> n" and "n < 1000000000"
  shows "timedelta 0 n 0 0 = Inr (n * 1000000)"
    and "timedelta 0 0 n 0 = Inr (n * 60 * 1000000)"
    and "timedelta 0 0 0 n = Inr (n * 3600 * 1000000)"
    and "timedelta n 0 0 0 = Inr (n * 86400 * 1000000)"
    and "timedelta 0 0 0 1 = Inr hour_us"
  using assms by (simp_all add: timedelta_def us_per_second_def us_per_day_def hour_us_def Let_def) arith+

lemma parse_duration_no_digit:
  assumes "str_lower s = [] \<or> \<not> is_digit (hd (str_lower s))"
  shows "parse_duration s = Inr hour_us"
proof -
  from assms have "match_duration (str_lower s) = None"
    by (simp add: match_duration_None)
  then show ?thesis
    by (simp add: parse_duration_def timedelta_in_range(5) [of 0])
qed

lemma parse_duration_number:
  assumes low: "str_lower s = ds @ rest"
    and ds: "ds \<noteq> []" "\<forall>c \<in> set ds. is_digit c"
    and rest: "rest = [] \<or> \<not> is_digit (hd rest)"
    and len: "length ds \<le> 4300"
    and small: "digits_val ds < 1000000000"
  shows "parse_duration s =
           Inr (digits_val ds *
                (case rest of
                   [] \<Rightarrow> 3600
                 | c # _ \<Rightarrow> if c = CHR ''s'' then 1 else if c = CHR ''m'' then 60
                            else if c = CHR ''h'' then 3600 else if c = CHR ''d'' then 86400
                            else 3600) * 1000000)"
proof -
  have m: "match_duration (str_lower s) =
             Some (ds, case rest of [] \<Rightarrow> [] | c # _ \<Rightarrow> if c \<in> set ''smhd'' then [c] else [])"
    unfolding low by (rule match_duration_split [OF ds rest])
  have i: "int_of_str ds = Some (digits_val ds)"
    using int_of_str_digits [OF ds] len by (simp add: max_str_digits_def)
  note td = timedelta_in_range [OF digits_val_nonneg small]
  show ?thesis
    unfolding parse_duration_def m
    by (cases rest) (auto simp: i td Let_def)
qed

lemma mute_malformed_duration:
  assumes adm: "is_admin tr (effective_chat_id upd) (user_id (effective_user upd))"
    and target: "get_target_user tr upd = Inr (Some u)"
    and ar: "args upd \<noteq> []"
    and bad: "str_lower (last (args upd)) = [] \<or> \<not> is_digit (hd (str_lower (last (args upd))))"
    and ok: "\<forall>a. accepts tr a"
    and clock: "0 \<le> now" "now + hour_us \<le> datetime_max"
  shows "mute tr now upd st =
           (st, [RestrictChatMember (effective_chat_id upd) (user_id u) False
                   (Some (timestamp_int now + 3600)),
                 ReplyText (first_name u @ '' muted for '' @ last (args upd))], Returned)"
proof -
  have dt: "datetime_add now hour_us = Inr (now + hour_us)"
    using clock by (simp add: datetime_add_def datetime_min_def hour_us_def)
  from target_has_message [OF target] obtain m where m: "message upd = Some m" ..
  show ?thesis
    using adm target ar ok parse_duration_no_digit [OF bad] dt timestamp_plus_hour [OF clock(1)]
    by (simp add: mute_def reply_last_message [OF m] Let_def)
qed

text \<open>
  Claim C10, as amended. A string whose lowercased form does not begin with a digit
  parses to the default of one hour. A string whose lowercased form begins with a number
  below \<open>10\<^sup>9\<close> (written with at most 4300 digits) parses to that number of
  seconds, minutes, hours or days when the character after the digits is \<open>s\<close>,
  \<open>m\<close>, \<open>h\<close> or \<open>d\<close>, and to that number of hours when there is no such
  unit. Hence a \<open>/mute\<close> whose duration argument does not begin with a digit mutes for
  one hour. Nothing is stated for larger numbers.
\<close>

theorem parse_duration_in_range:
  "(str_lower s = [] \<or> \<not> is_digit (hd (str_lower s)) \<longrightarrow> parse_duration s = Inr hour_us)
   \<and> (\<forall>ds rest.
         str_lower s = ds @ rest \<and> ds \<noteq> [] \<and> (\<forall>c \<in> set ds. is_digit c)
         \<and> (rest = [] \<or> \<not> is_digit (hd rest))
         \<and> length ds \<le> 4300 \<and> digits_val ds < 1000000000
       \<longrightarrow> parse_duration s =
             Inr (digits_val ds *
                  (case rest of
                     [] \<Rightarrow> 3600
                   | c # _ \<Rightarrow> if c = CHR ''s'' then 1 else if c = CHR ''m'' then 60
                              else if c = CHR ''h'' then 3600 else if c = CHR ''d'' then 86400
                              else 3600) * 1000000))
   \<and> (\<forall>tr upd u now st.
         is_admin tr (effective_chat_id upd) (user_id (effective_user upd))
         \<and> get_target_user tr upd = Inr (Some u)
         \<and> args upd \<noteq> [] \<and> last (args upd) = s
         \<and> (str_lower s = [] \<or> \<not> is_digit (hd (str_lower s)))
         \<and> (\<forall>a. accepts tr a) \<and> 0 \<le> now \<and> now + hour_us \<le> datetime_max
       \<longrightarrow> mute tr now upd st =
             (st, [RestrictChatMember (effective_chat_id upd) (user_id u) False
                     (Some (timestamp_int now + 3600)),
                   ReplyText (first_name u @ '' muted for '' @ s)], Returned))"
proof (intro conjI allI impI)
  assume "str_lower s = [] \<or> \<not> is_digit (hd (str_lower s))"
  then show "parse_duration s = Inr hour_us"
    by (rule parse_duration_no_digit)
next
  fix ds rest
  assume "str_lower s = ds @ rest \<and> ds \<noteq> [] \<and> (\<forall>c \<in> set ds. is_digit c)
         \<and> (rest = [] \<or> \<not> is_digit (hd rest))
         \<and> length ds \<le> 4300 \<and> digits_val ds < 1000000000"
  then show "parse_duration s =
             Inr (digits_val ds *
                  (case rest of
                     [] \<Rightarrow> 3600
                   | c # _ \<Rightarrow> if c = CHR ''s'' then 1 else if c = CHR ''m'' then 60
                              else if c = CHR ''h'' then 3600 else if c = CHR ''d'' then 86400
                              else 3600) * 1000000)"
    using parse_duration_number [of s ds rest] by simp
next
  fix tr upd u now st
  assume h: "is_admin tr (effective_chat_id upd) (user_id (effective_user upd))
         \<and> get_target_user tr upd = Inr (Some u)
         \<and> args upd \<noteq> [] \<and> last (args upd) = s
         \<and> (str_lower s = [] \<or> \<not> is_digit (hd (str_lower s)))
         \<and> (\<forall>a. accepts tr a) \<and> 0 \<le> now \<and> now + hour_us \<le> datetime_max"
  then have "last (args upd) = s" by simp
  with h show "mute tr now upd st =
             (st, [RestrictChatMember (effective_chat_id upd) (user_id u) False
                     (Some (timestamp_int now + 3600)),
                   ReplyText (first_name u @ '' muted for '' @ s)], Returned)"
    using mute_malformed_duration [of tr upd u now st] by simp
qed

lemmas parse_eval =
  parse_duration_def match_duration_def str_lower_def lower_char_def is_digit_def int_of_str_def
  is_space_def digits_val_def digit_val_def max_str_digits_def timedelta_def us_per_second_def
  us_per_day_def

theorem parse_duration_in_range_witness:
  "str_lower ''10M'' = ''10'' @ ''m''
   \<and> digits_val ''10'' = 10
   \<and> parse_duration ''10M'' = Inr (10 * 60 * 1000000)
   \<and> parse_duration ''soon'' = Inr hour_us"
proof -
  have low: "str_lower ''10M'' = ''10'' @ ''m''"
    by (simp add: str_lower_def lower_char_def)
  have val: "digits_val ''10'' = 10"
    by (simp add: digits_val_def digit_val_def)
  have dig: "\<forall>c \<in> set ''10''. is_digit c" "\<not> is_digit (hd ''m'')"
    by (simp_all add: is_digit_def)
  have nod: "\<not> is_digit (hd (str_lower ''soon''))"
    by (simp add: str_lower_def lower_char_def is_digit_def)
  have "parse_duration ''10M'' =
          Inr (digits_val ''10'' * (case ''m'' of [] \<Rightarrow> 3600
                   | c # _ \<Rightarrow> if c = CHR ''s'' then 1 else if c = CHR ''m'' then 60
                              else if c = CHR ''h'' then 3600 else if c = CHR ''d'' then 86400
                              else 3600) * 1000000)"
  proof -
    from parse_duration_in_range [of "''10M''"]
    have "\<forall>ds rest.
         str_lower ''10M'' = ds @ rest \<and> ds \<noteq> [] \<and> (\<forall>c \<in> set ds. is_digit c)
         \<and> (rest = [] \<or> \<not> is_digit (hd rest))
         \<and> length ds \<le> 4300 \<and> digits_val ds < 1000000000
       \<longrightarrow> parse_duration ''10M'' =
             Inr (digits_val ds *
                  (case rest of
                     [] \<Rightarrow> 3600
                   | c # _ \<Rightarrow> if c = CHR ''s'' then 1 else if c = CHR ''m'' then 60
                              else if c = CHR ''h'' then 3600 else if c = CHR ''d'' then 86400
                              else 3600) * 1000000)"
      by (elim conjE)
    from this [rule_format, of "''10''" "''m''"] low val dig show ?thesis by simp
  qed
  moreover have "parse_duration ''soon'' = Inr hour_us"
  proof -
    from parse_duration_in_range [of "''soon''"]
    have "str_lower ''soon'' = [] \<or> \<not> is_digit (hd (str_lower ''soon'')) \<longrightarrow>
            parse_duration ''soon'' = Inr hour_us"
      by (elim conjE)
    with nod show ?thesis by simp
  qed
  ultimately show ?thesis using low val by simp
qed

text \<open>
  The claim as stated fails: the parser is not total. The dictionary literal builds
  \<open>timedelta(days=num)\<close> whatever the unit is, and that raises \<open>OverflowError\<close> from
  \<open>10\<^sup>9\<close> on, for a duration given in seconds as well as for a bare number.
\<close>

theorem parse_duration_overflow_counterexample:
  "parse_duration ''1000000000s'' = Inl OverflowError
   \<and> parse_duration ''5123456789'' = Inl OverflowError"
  by (simp add: parse_eval)

section \<open>Concurrent requests at the AI gate\<close>

lemma gate_start_inv: "gate_inv uid lu (gate_start lu)"
  by (simp add: gate_inv_def gate_start_def)

lemma step_a_inv:
  assumes "gate_inv uid lu0 g"
  shows "gate_inv uid lu0 (step uid g (A, clock))"
proof (cases "call_a g")
  case Waiting
  with assms show ?thesis
    by (cases "call_b g") (auto simp: gate_inv_def step_def step_call_def)
next
  case Entered
  with assms show ?thesis
    by (cases "call_b g") (auto simp: gate_inv_def step_def step_call_def)
next
  case (ReadNow n)
  with assms show ?thesis
    by (cases "call_b g") (auto simp: gate_inv_def step_def step_call_def)
next
  case (ReadLast n l)
  with assms show ?thesis
    by (cases "call_b g") (auto simp: gate_inv_def step_def step_call_def granted_def split: option.splits)
next
  case (Finished r n)
  with assms show ?thesis
    by (cases "call_b g") (auto simp: gate_inv_def step_def step_call_def)
qed

lemma step_b_inv:
  assumes "gate_inv uid lu0 g"
  shows "gate_inv uid lu0 (step uid g (B, clock))"
proof (cases "call_b g")
  case Waiting
  with assms show ?thesis
    by (cases "call_a g") (auto simp: gate_inv_def step_def step_call_def)
next
  case Entered
  with assms show ?thesis
    by (cases "call_a g") (auto simp: gate_inv_def step_def step_call_def)
next
  case (ReadNow n)
  with assms show ?thesis
    by (cases "call_a g") (auto simp: gate_inv_def step_def step_call_def)
next
  case (ReadLast n l)
  with assms show ?thesis
    by (cases "call_a g") (auto simp: gate_inv_def step_def step_call_def granted_def split: option.splits)
next
  case (Finished r n)
  with assms show ?thesis
    by (cases "call_a g") (auto simp: gate_inv_def step_def step_call_def)
qed

lemma step_inv: "gate_inv uid lu0 g \<Longrightarrow> gate_inv uid lu0 (step uid g ev)"
proof -
  assume i: "gate_inv uid lu0 g"
  obtain t clock where ev: "ev = (t, clock)" by (cases ev)
  show ?thesis
    unfolding ev using i by (cases t) (simp_all add: step_a_inv step_b_inv)
qed

lemma run_inv: "gate_inv uid lu0 g \<Longrightarrow> gate_inv uid lu0 (run uid g sched)"
  unfolding run_def
  by (induction sched arbitrary: g) (simp_all add: step_inv)

lemma reachable_inv: "gate_inv uid lu (run uid (gate_start lu) sched)"
  by (rule run_inv [OF gate_start_inv])

lemma run_append: "run uid g (xs @ ys) = run uid (run uid g xs) ys"
  by (simp add: run_def)

lemma call_a_alone:
  "run uid \<lparr> locks = {}, last_used = lu, call_a = Waiting, call_b = cb \<rparr>
       [(A, t), (A, t), (A, t), (A, t)]
     = \<lparr> locks = {}, last_used = snd (can_use_ai uid t lu),
         call_a = Finished (fst (can_use_ai uid t lu)) t, call_b = cb \<rparr>"
  by (cases "granted t (lu uid)")
     (simp_all add: run_def step_def step_call_def can_use_ai_def)

lemma call_b_alone:
  "run uid \<lparr> locks = {}, last_used = lu, call_a = ca, call_b = Waiting \<rparr>
       [(B, t), (B, t), (B, t), (B, t)]
     = \<lparr> locks = {}, last_used = snd (can_use_ai uid t lu),
         call_a = ca, call_b = Finished (fst (can_use_ai uid t lu)) t \<rparr>"
  by (cases "granted t (lu uid)")
     (simp_all add: run_def step_def step_call_def can_use_ai_def)

text \<open>Run one after the other, the two calls are two calls of the function as written.\<close>

lemma serial_run:
  "run uid (gate_start lu) ([(A, t), (A, t), (A, t), (A, t)] @ [(B, t'), (B, t'), (B, t'), (B, t')])
     = \<lparr> locks = {},
         last_used = snd (can_use_ai uid t' (snd (can_use_ai uid t lu))),
         call_a = Finished (fst (can_use_ai uid t lu)) t,
         call_b = Finished (fst (can_use_ai uid t' (snd (can_use_ai uid t lu)))) t' \<rparr>"
  unfolding run_append gate_start_def call_a_alone call_b_alone ..

lemma inv_both_granted:
  "gate_inv uid lu0 g \<Longrightarrow> call_a g = Finished True n \<Longrightarrow> call_b g = Finished True m \<Longrightarrow>
     n - m \<ge> COOLDOWN \<or> m - n \<ge> COOLDOWN"
  by (simp add: gate_inv_def)

lemma inv_both_denied:
  "gate_inv uid lu0 g \<Longrightarrow> call_a g = Finished False n \<Longrightarrow> call_b g = Finished False m \<Longrightarrow>
     \<not> granted n (lu0 uid) \<and> \<not> granted m (lu0 uid)"
  by (simp add: gate_inv_def)

text \<open>
  Claim C1, as amended. Take two calls of \<open>can_use_ai\<close> for the same user, started
  together and run in any interleaving the per-user lock allows, from any stored
  timestamps. If both have returned and their clock readings are less than the cooldown
  apart, they have not both returned true. Exactly one has returned true when the reading
  of at least one of them is a cooldown or more after the timestamp stored at the start,
  or none is stored; otherwise both may be denied.
\<close>

theorem concurrent_calls_gate:
  assumes fin: "call_a (run uid (gate_start lu) sched) = Finished ra na"
               "call_b (run uid (gate_start lu) sched) = Finished rb nb"
    and window: "\<bar>na - nb\<bar> < COOLDOWN"
  shows "\<not> (ra \<and> rb) \<and> (granted na (lu uid) \<or> granted nb (lu uid) \<longrightarrow> ra \<noteq> rb)"
proof -
  note inv = reachable_inv [of uid lu sched]
  have one: "\<not> (ra \<and> rb)"
  proof
    assume "ra \<and> rb"
    with fin have "call_a (run uid (gate_start lu) sched) = Finished True na"
      "call_b (run uid (gate_start lu) sched) = Finished True nb" by simp_all
    from inv_both_granted [OF inv this]
    have "na - nb \<ge> COOLDOWN \<or> nb - na \<ge> COOLDOWN" .
    with window show False by linarith
  qed
  have some: "ra \<or> rb" if g: "granted na (lu uid) \<or> granted nb (lu uid)"
  proof (rule ccontr)
    assume "\<not> (ra \<or> rb)"
    with fin have "call_a (run uid (gate_start lu) sched) = Finished False na"
      "call_b (run uid (gate_start lu) sched) = Finished False nb" by simp_all
    from inv_both_denied [OF inv this] g show False by simp
  qed
  from one some show ?thesis by blast
qed


lemmas gate_eval = run_def step_def step_call_def gate_start_def granted_def COOLDOWN_def

theorem concurrent_calls_gate_witness:
  "call_a (run 7 (gate_start Map.empty)
      [(A, 1000), (B, 1000), (A, 1000), (B, 1500), (A, 2000), (A, 2000),
       (B, 2500), (B, 200000), (B, 200000), (B, 200000)]) = Finished True 1000
   \<and> call_b (run 7 (gate_start Map.empty)
      [(A, 1000), (B, 1000), (A, 1000), (B, 1500), (A, 2000), (A, 2000),
       (B, 2500), (B, 200000), (B, 200000), (B, 200000)]) = Finished False 200000
   \<and> \<bar>1000 - 200000\<bar> < COOLDOWN
   \<and> granted 1000 (Map.empty (7::int))"
proof -
  let ?g = "run 7 (gate_start Map.empty)
      [(A, 1000), (B, 1000), (A, 1000), (B, 1500), (A, 2000), (A, 2000),
       (B, 2500), (B, 200000), (B, 200000), (B, 200000)]"
  have a: "call_a ?g = Finished True 1000" by (simp add: gate_eval)
  have b: "call_b ?g = Finished False 200000" by (simp add: gate_eval)
  have w: "\<bar>1000 - 200000\<bar> < COOLDOWN" by (simp add: COOLDOWN_def)
  have g: "granted 1000 (Map.empty (7::int))"
    by (simp add: granted_def)
  from concurrent_calls_gate [OF a b w] a b w g show ?thesis by simp
qed

text \<open>
  The claim as stated says that exactly one of the two calls succeeds. With a grant
  stored 0.1 seconds before, two interleaved calls within the window are both denied.
\<close>

theorem concurrent_calls_both_denied_counterexample:
  "call_a (run 7 (gate_start [7 \<mapsto> 0])
      [(A, 100000), (B, 100000), (A, 100000), (A, 100000), (B, 150000), (A, 100000),
       (B, 200000), (B, 200000), (B, 200000), (B, 200000)]) = Finished False 100000
   \<and> call_b (run 7 (gate_start [7 \<mapsto> 0])
      [(A, 100000), (B, 100000), (A, 100000), (A, 100000), (B, 150000), (A, 100000),
       (B, 200000), (B, 200000), (B, 200000), (B, 200000)]) = Finished False 200000
   \<and> \<bar>100000 - 200000\<bar> < COOLDOWN"
  by (simp add: gate_eval)

section \<open>Properties of welcome rendering\<close>

lemma replace_hit:
  assumes "old \<noteq> []"
  shows "str_replace old new (old @ rest) = new @ str_replace old new rest"
proof -
  obtain c cs where o: "old = c # cs" using assms by (cases old) auto
  have "str_replace old new (c # (cs @ rest)) =
          new @ str_replace old new (drop (length old) (c # (cs @ rest)))"
    using assms by (simp add: o)
  then show ?thesis by (simp add: o)
qed

lemma replace_skip_plain:
  assumes "old = x # old'" and "x \<notin> set w"
  shows "str_replace old new (w @ rest) = w @ str_replace old new rest"
  using assms(2)
proof (induction w)
  case Nil
  then show ?case by simp
next
  case (Cons c w)
  then have "c \<noteq> x" by auto
  then have "\<not> prefix old (c # (w @ rest))" by (simp add: assms(1))
  with Cons show ?case by (simp add: assms(1))
qed

lemma replace_skip_other:
  assumes "old = x # d # old'" and "c \<noteq> d" and "x \<notin> set (c # w)"
  shows "str_replace old new ((x # c # w) @ rest) = (x # c # w) @ str_replace old new rest"
proof -
  have np: "\<not> prefix old (x # c # (w @ rest))"
    using assms(2) by (simp add: assms(1))
  have ne: "old \<noteq> []"
    by (simp add: assms(1))
  from np ne
  have "str_replace old new ((x # c # w) @ rest) = x # str_replace old new ((c # w) @ rest)"
    by simp
  also have "str_replace old new ((c # w) @ rest) = (c # w) @ str_replace old new rest"
    by (rule replace_skip_plain [OF assms(1) assms(3)])
  finally show ?thesis by simp
qed

lemma replace_concat:
  assumes old: "old = x # d # old'"
    and pieces: "\<forall>p \<in> set ps. g p = old \<or> x \<notin> set (g p)
                   \<or> (\<exists>c w. g p = x # c # w \<and> c \<noteq> d \<and> x \<notin> set (c # w))"
  shows "str_replace old new (concat (map g ps)) =
           concat (map (\<lambda>p. if g p = old then new else g p) ps)"
  using pieces
proof (induction ps)
  case Nil
  then show ?case by (simp add: old)
next
  case (Cons p ps)
  then have ih: "str_replace old new (concat (map g ps)) =
                   concat (map (\<lambda>p. if g p = old then new else g p) ps)"
    by simp
  from Cons.prems have "g p = old \<or> x \<notin> set (g p)
                   \<or> (\<exists>c w. g p = x # c # w \<and> c \<noteq> d \<and> x \<notin> set (c # w))"
    by simp
  then consider (hit) "g p = old" | (plain) "g p \<noteq> old" "x \<notin> set (g p)"
    | (other) c w where "g p \<noteq> old" "g p = x # c # w" "c \<noteq> d" "x \<notin> set (c # w)"
    by blast
  then show ?case
  proof cases
    case hit
    have "old \<noteq> []" by (simp add: old)
    from replace_hit [OF this, of new "concat (map g ps)"] hit ih
    show ?thesis by simp
  next
    case plain
    from replace_skip_plain [OF old plain(2), of new "concat (map g ps)"] plain(1) ih
    show ?thesis by simp
  next
    case other
    from replace_skip_other [OF old other(3,4), of new "concat (map g ps)"] other(1,2) ih
    show ?thesis by simp
  qed
qed


lemma digit_char_no_brace: "digit_char d \<noteq> CHR ''{''" "CHR ''{'' \<noteq> digit_char d"
  by (simp_all add: digit_char_def)

lemma str_digits_no_brace: "CHR ''{'' \<notin> set (str_digits n)"
proof (induction n rule: str_digits.induct)
  case (1 n)
  show ?case
  proof (cases "n < 10")
    case True
    then show ?thesis by (subst str_digits.simps) (simp add: digit_char_no_brace)
  next
    case False
    with 1 show ?thesis by (subst str_digits.simps) (simp add: digit_char_no_brace)
  qed
qed

lemma str_int_no_brace: "CHR ''{'' \<notin> set (str_int i)"
  by (simp add: str_int_def str_digits_no_brace)

lemma welcome_text_substituted:
  assumes lits: "\<forall>t. Lit t \<in> set ps \<longrightarrow> CHR ''{'' \<notin> set t"
    and first: "first_name m \<noteq> []" "CHR ''{'' \<notin> set (first_name m)"
    and mention: "CHR ''{'' \<notin> set (mention_html m)"
    and uname: "\<forall>n. username m = Some n \<longrightarrow> n \<noteq> [] \<and> CHR ''{'' \<notin> set n"
  shows "welcome_text (template_of ps) m = substituted m ps"
proof -
  define vu where "vu = (case username m of None \<Rightarrow> first_name m | Some n \<Rightarrow> CHR ''@'' # n)"
  define g1 where "g1 = (\<lambda>p. case p of First \<Rightarrow> first_name m | _ \<Rightarrow> piece_source p)"
  define g2 where "g2 = (\<lambda>p. case p of Mention \<Rightarrow> mention_html m | _ \<Rightarrow> g1 p)"
  define g3 where "g3 = (\<lambda>p. case p of Id \<Rightarrow> str_int (user_id m) | _ \<Rightarrow> g2 p)"
  have vu_free: "CHR ''{'' \<notin> set vu"
    using uname first(2) by (auto simp: vu_def split: option.splits)
  have vu_code: "(if truthy (username m) then CHR ''@'' # the (username m) else first_name m) = vu"
    using uname by (auto simp: vu_def truthy_def split: option.splits)
  have s1: "str_replace ''{first}'' (first_name m) (concat (map piece_source ps)) = concat (map g1 ps)"
  proof -
    have "\<forall>p \<in> set ps. piece_source p = ''{first}'' \<or> CHR ''{'' \<notin> set (piece_source p)
            \<or> (\<exists>c w. piece_source p = CHR ''{'' # c # w \<and> c \<noteq> CHR ''f'' \<and> CHR ''{'' \<notin> set (c # w))"
    proof
      fix p assume "p \<in> set ps"
      with lits show "piece_source p = ''{first}'' \<or> CHR ''{'' \<notin> set (piece_source p)
            \<or> (\<exists>c w. piece_source p = CHR ''{'' # c # w \<and> c \<noteq> CHR ''f'' \<and> CHR ''{'' \<notin> set (c # w))"
        by (cases p) auto
    qed
    from replace_concat [of "''{first}''" "CHR ''{''" "CHR ''f''" "''irst}''" ps piece_source, OF _ this]
    have "str_replace ''{first}'' (first_name m) (concat (map piece_source ps)) =
            concat (map (\<lambda>p. if piece_source p = ''{first}'' then first_name m else piece_source p) ps)"
      by simp
    also have "map (\<lambda>p. if piece_source p = ''{first}'' then first_name m else piece_source p) ps = map g1 ps"
    proof (rule map_cong [OF refl])
      fix p assume "p \<in> set ps"
      with lits show "(if piece_source p = ''{first}'' then first_name m else piece_source p) = g1 p"
        by (cases p) (auto simp: g1_def)
    qed
    finally show ?thesis .
  qed
  have s2: "str_replace ''{mention}'' (mention_html m) (concat (map g1 ps)) = concat (map g2 ps)"
  proof -
    have "\<forall>p \<in> set ps. g1 p = ''{mention}'' \<or> CHR ''{'' \<notin> set (g1 p)
            \<or> (\<exists>c w. g1 p = CHR ''{'' # c # w \<and> c \<noteq> CHR ''m'' \<and> CHR ''{'' \<notin> set (c # w))"
    proof
      fix p assume "p \<in> set ps"
      with lits first show "g1 p = ''{mention}'' \<or> CHR ''{'' \<notin> set (g1 p)
            \<or> (\<exists>c w. g1 p = CHR ''{'' # c # w \<and> c \<noteq> CHR ''m'' \<and> CHR ''{'' \<notin> set (c # w))"
        by (cases p) (auto simp: g1_def)
    qed
    from replace_concat [of "''{mention}''" "CHR ''{''" "CHR ''m''" "''ention}''" ps g1, OF _ this]
    have "str_replace ''{mention}'' (mention_html m) (concat (map g1 ps)) =
            concat (map (\<lambda>p. if g1 p = ''{mention}'' then mention_html m else g1 p) ps)"
      by simp
    also have "map (\<lambda>p. if g1 p = ''{mention}'' then mention_html m else g1 p) ps = map g2 ps"
    proof (rule map_cong [OF refl])
      fix p assume "p \<in> set ps"
      with lits first show "(if g1 p = ''{mention}'' then mention_html m else g1 p) = g2 p"
        by (cases p) (auto simp: g1_def g2_def)
    qed
    finally show ?thesis .
  qed
  have s3: "str_replace ''{id}'' (str_int (user_id m)) (concat (map g2 ps)) = concat (map g3 ps)"
  proof -
    have "\<forall>p \<in> set ps. g2 p = ''{id}'' \<or> CHR ''{'' \<notin> set (g2 p)
            \<or> (\<exists>c w. g2 p = CHR ''{'' # c # w \<and> c \<noteq> CHR ''i'' \<and> CHR ''{'' \<notin> set (c # w))"
    proof
      fix p assume "p \<in> set ps"
      with lits first mention show "g2 p = ''{id}'' \<or> CHR ''{'' \<notin> set (g2 p)
            \<or> (\<exists>c w. g2 p = CHR ''{'' # c # w \<and> c \<noteq> CHR ''i'' \<and> CHR ''{'' \<notin> set (c # w))"
        by (cases p) (auto simp: g1_def g2_def)
    qed
    from replace_concat [of "''{id}''" "CHR ''{''" "CHR ''i''" "''d}''" ps g2, OF _ this]
    have "str_replace ''{id}'' (str_int (user_id m)) (concat (map g2 ps)) =
            concat (map (\<lambda>p. if g2 p = ''{id}'' then str_int (user_id m) else g2 p) ps)"
      by simp
    also have "map (\<lambda>p. if g2 p = ''{id}'' then str_int (user_id m) else g2 p) ps = map g3 ps"
    proof (rule map_cong [OF refl])
      fix p assume "p \<in> set ps"
      with lits first mention show "(if g2 p = ''{id}'' then str_int (user_id m) else g2 p) = g3 p"
        by (cases p) (auto simp: g1_def g2_def g3_def)
    qed
    finally show ?thesis .
  qed
  have s4: "str_replace ''{username}'' vu (concat (map g3 ps)) = concat (map (piece_value m) ps)"
  proof -
    have "\<forall>p \<in> set ps. g3 p = ''{username}'' \<or> CHR ''{'' \<notin> set (g3 p)
            \<or> (\<exists>c w. g3 p = CHR ''{'' # c # w \<and> c \<noteq> CHR ''u'' \<and> CHR ''{'' \<notin> set (c # w))"
    proof
      fix p assume "p \<in> set ps"
      with lits first mention str_int_no_brace [of "user_id m"]
      show "g3 p = ''{username}'' \<or> CHR ''{'' \<notin> set (g3 p)
            \<or> (\<exists>c w. g3 p = CHR ''{'' # c # w \<and> c \<noteq> CHR ''u'' \<and> CHR ''{'' \<notin> set (c # w))"
        by (cases p) (auto simp: g1_def g2_def g3_def)
    qed
    from replace_concat [of "''{username}''" "CHR ''{''" "CHR ''u''" "''sername}''" ps g3, OF _ this]
    have "str_replace ''{username}'' vu (concat (map g3 ps)) =
            concat (map (\<lambda>p. if g3 p = ''{username}'' then vu else g3 p) ps)"
      by simp
    also have "map (\<lambda>p. if g3 p = ''{username}'' then vu else g3 p) ps = map (piece_value m) ps"
    proof (rule map_cong [OF refl])
      fix p assume "p \<in> set ps"
      with lits first mention str_int_no_brace [of "user_id m"]
      show "(if g3 p = ''{username}'' then vu else g3 p) = piece_value m p"
        by (cases p) (auto simp: g1_def g2_def g3_def vu_def)
    qed
    finally show ?thesis .
  qed
  show ?thesis
    unfolding welcome_text_def template_of_def substituted_def vu_code
    using first(1) by (simp add: s1 s2 s3 s4)
qed


text \<open>
  The replacements run one after the other over the whole text, so a placeholder inside a
  value that was put in earlier is replaced as well.
\<close>

lemma welcome_text_rescans_values:
  "welcome_text ''Hi {first}'' (eve\<lparr>first_name := ''{id}''\<rparr>) = ''Hi 7''"
  by (simp add: welcome_text_def eve_def truthy_def str_eval)

text \<open>
  The same happens when a brace of the template and a value that was put in next to it
  spell a placeholder, even though the value has no brace.
\<close>

lemma welcome_text_rescans_template:
  "welcome_text ''{{first}}'' (eve\<lparr>first_name := ''id''\<rparr>) = ''7''"
  by (simp add: welcome_text_def eve_def truthy_def str_eval)

lemma welcome_call_text: "welcome_call cfg chat txt = Some a \<Longrightarrow> call_text a = txt"
  by (auto simp: welcome_call_def Let_def split: if_splits)

lemma welcome_call_some:
  assumes "\<not> truthy (cfg_media cfg)
           \<or> cfg_type cfg \<in> {None, Some ''photo'', Some ''animation'', Some ''video''}"
  shows "\<exists>a. welcome_call cfg chat txt = Some a"
  using assms by (auto simp: welcome_call_def Let_def split: option.splits)

lemma map_filter_texts:
  assumes "\<And>m. \<exists>a. f m = Some a" and "\<And>m a. f m = Some a \<Longrightarrow> call_text a = h m"
  shows "map call_text (List.map_filter f ms) = map h ms"
proof (induction ms)
  case Nil
  then show ?case by (simp add: List.map_filter_simps)
next
  case (Cons m ms)
  from assms(1) obtain a where a: "f m = Some a" by blast
  with assms(2) have "call_text a = h m" by blast
  with a Cons show ?case by (simp add: List.map_filter_simps)
qed

lemma map_filter_member:
  "a \<in> set (List.map_filter f ms) \<Longrightarrow> \<exists>m \<in> set ms. f m = Some a"
  by (auto simp: List.map_filter_def)

lemma send_welcome_disabled:
  "\<not> truthy (cfg_text (welcome_entry s (str_int chat))) \<Longrightarrow>
     send_welcome s chat members = (s, [], Returned)"
  by (simp add: send_welcome_def Let_def)

lemma send_welcome_enabled:
  assumes "cfg = welcome_entry s (str_int chat)" and "cfg_text cfg = Some t" and "t \<noteq> []"
  shows "send_welcome s chat members =
           (s, List.map_filter (\<lambda>m. welcome_call cfg chat (welcome_text t m)) members, Returned)"
  using assms by (simp add: send_welcome_def truthy_def Let_def)

text \<open>
  Claim C7, as amended. For the welcome entry of a chat: without a template text (none,
  or empty) \<open>_send_welcome\<close> sends nothing, whatever media or link is set; and it never
  changes the state. With a template made of text without \<open>{\<close> and of the four
  placeholders, a stored media kind (if media is set) of photo, animation or video, and
  members whose first name is not empty and whose first name, HTML mention and username
  contain no \<open>{\<close>, it returns after one call per member, and the text (or caption) of the
  call is the template with \<open>{first}\<close> replaced by the member's first name,
  \<open>{mention}\<close> by the HTML mention, \<open>{id}\<close> by the numeric id and \<open>{username}\<close> by
  \<open>@username\<close>, or by the first name when there is no username. Nothing is stated about
  the text for other templates and members.
\<close>

theorem welcome_rendering:
  assumes cfg: "cfg = welcome_entry s (str_int chat)"
  shows "(cfg_text cfg = None \<or> cfg_text cfg = Some [] \<longrightarrow>
            send_welcome s chat members = (s, [], Returned))
    \<and> fst (send_welcome s chat members) = s
    \<and> (\<forall>ps. cfg_text cfg = Some (template_of ps) \<and> template_of ps \<noteq> []
          \<and> (\<forall>l. Lit l \<in> set ps \<longrightarrow> CHR ''{'' \<notin> set l)
          \<and> (\<forall>m \<in> set members.
                first_name m \<noteq> [] \<and> CHR ''{'' \<notin> set (first_name m)
                \<and> CHR ''{'' \<notin> set (mention_html m)
                \<and> (\<forall>n. username m = Some n \<longrightarrow> n \<noteq> [] \<and> CHR ''{'' \<notin> set n))
          \<and> (\<not> truthy (cfg_media cfg)
               \<or> cfg_type cfg \<in> {None, Some ''photo'', Some ''animation'', Some ''video''})
        \<longrightarrow> snd (snd (send_welcome s chat members)) = Returned
            \<and> map call_text (fst (snd (send_welcome s chat members)))
                = map (\<lambda>m. substituted m ps) members)"
proof (intro conjI allI impI)
  assume "cfg_text cfg = None \<or> cfg_text cfg = Some []"
  then have "\<not> truthy (cfg_text (welcome_entry s (str_int chat)))"
    unfolding cfg [symmetric] by (auto simp: truthy_def)
  then show "send_welcome s chat members = (s, [], Returned)"
    by (rule send_welcome_disabled)
next
  show "fst (send_welcome s chat members) = s"
    by (simp add: send_welcome_def Let_def)
next
  fix ps
  assume h: "cfg_text cfg = Some (template_of ps) \<and> template_of ps \<noteq> []
          \<and> (\<forall>l. Lit l \<in> set ps \<longrightarrow> CHR ''{'' \<notin> set l)
          \<and> (\<forall>m \<in> set members.
                first_name m \<noteq> [] \<and> CHR ''{'' \<notin> set (first_name m)
                \<and> CHR ''{'' \<notin> set (mention_html m)
                \<and> (\<forall>n. username m = Some n \<longrightarrow> n \<noteq> [] \<and> CHR ''{'' \<notin> set n))
          \<and> (\<not> truthy (cfg_media cfg)
               \<or> cfg_type cfg \<in> {None, Some ''photo'', Some ''animation'', Some ''video''})"
  then have t: "cfg_text cfg = Some (template_of ps)" "template_of ps \<noteq> []"
    and lits: "\<forall>l. Lit l \<in> set ps \<longrightarrow> CHR ''{'' \<notin> set l"
    and ok: "\<not> truthy (cfg_media cfg)
               \<or> cfg_type cfg \<in> {None, Some ''photo'', Some ''animation'', Some ''video''}"
    by simp_all
  have sw: "send_welcome s chat members =
           (s, List.map_filter (\<lambda>m. welcome_call cfg chat (welcome_text (template_of ps) m)) members,
            Returned)"
    by (rule send_welcome_enabled [OF cfg t])
  show "snd (snd (send_welcome s chat members)) = Returned"
    by (simp add: sw)
  have "map call_text
          (List.map_filter (\<lambda>m. welcome_call cfg chat (welcome_text (template_of ps) m)) members)
          = map (welcome_text (template_of ps)) members"
    by (rule map_filter_texts) (simp_all add: welcome_call_some [OF ok] welcome_call_text)
  also have "map (welcome_text (template_of ps)) members = map (\<lambda>m. substituted m ps) members"
  proof (rule map_cong [OF refl])
    fix m assume "m \<in> set members"
    with h have "first_name m \<noteq> []" "CHR ''{'' \<notin> set (first_name m)"
      "CHR ''{'' \<notin> set (mention_html m)"
      "\<forall>n. username m = Some n \<longrightarrow> n \<noteq> [] \<and> CHR ''{'' \<notin> set n"
      by simp_all
    with lits show "welcome_text (template_of ps) m = substituted m ps"
      by (rule welcome_text_substituted)
  qed
  finally show "map call_text (fst (snd (send_welcome s chat members)))
                = map (\<lambda>m. substituted m ps) members"
    by (simp add: sw)
qed

lemma greeting_cfg:
  "welcome_entry greeting_state (str_int 5)
     = empty_cfg\<lparr>cfg_text := Some ''Hi {first} {mention} {id} {username}''\<rparr>"
  by (simp add: greeting_state_def setwelcometext_def command_def boss_def is_admin_def
        sample_transport_def fst_reply_last save_store_def welcome_entry_def fresh_state_def
        Let_def)

lemma fresh_cfg: "welcome_entry fresh_state (str_int 5) = empty_cfg"
  by (simp add: welcome_entry_def fresh_state_def)

theorem welcome_rendering_witness:
  "send_welcome fresh_state 5 [ann] = (fresh_state, [], Returned)
   \<and> fst (send_welcome greeting_state 5 [ann]) = greeting_state
   \<and> template_of [Lit ''Hi '', First, Lit '' '', Mention, Lit '' '', Id, Lit '' '', Username]
       = ''Hi {first} {mention} {id} {username}''
   \<and> map call_text (fst (snd (send_welcome greeting_state 5 [ann])))
       = [''Hi Ann <a href=\"tg://user?id=42\">Ann</a> 42 @ann42'']"
proof -
  let ?ps = "[Lit ''Hi '', First, Lit '' '', Mention, Lit '' '', Id, Lit '' '', Username]"
  have none: "send_welcome fresh_state 5 [ann] = (fresh_state, [], Returned)"
    using welcome_rendering [OF refl, of fresh_state 5 "[ann]"]
    by (simp add: fresh_cfg empty_cfg_def)
  have tmpl: "template_of ?ps = ''Hi {first} {mention} {id} {username}''"
    by (simp add: template_of_def)
  have sub: "substituted ann ?ps = ''Hi Ann <a href=\"tg://user?id=42\">Ann</a> 42 @ann42''"
    by (simp add: substituted_def ann_def str_eval)
  have member: "first_name ann \<noteq> [] \<and> CHR ''{'' \<notin> set (first_name ann)
                \<and> CHR ''{'' \<notin> set (mention_html ann)
                \<and> (\<forall>n. username ann = Some n \<longrightarrow> n \<noteq> [] \<and> CHR ''{'' \<notin> set n)"
    by (simp add: ann_def)
  have lits: "\<forall>l. Lit l \<in> set ?ps \<longrightarrow> CHR ''{'' \<notin> set l"
    by auto
  note th = welcome_rendering [OF refl, of greeting_state 5 "[ann]"]
  from th have same: "fst (send_welcome greeting_state 5 [ann]) = greeting_state"
    by (elim conjE)
  from th have "\<forall>ps. cfg_text (welcome_entry greeting_state (str_int 5)) = Some (template_of ps)
          \<and> template_of ps \<noteq> []
          \<and> (\<forall>l. Lit l \<in> set ps \<longrightarrow> CHR ''{'' \<notin> set l)
          \<and> (\<forall>m \<in> set [ann].
                first_name m \<noteq> [] \<and> CHR ''{'' \<notin> set (first_name m)
                \<and> CHR ''{'' \<notin> set (mention_html m)
                \<and> (\<forall>n. username m = Some n \<longrightarrow> n \<noteq> [] \<and> CHR ''{'' \<notin> set n))
          \<and> (\<not> truthy (cfg_media (welcome_entry greeting_state (str_int 5)))
               \<or> cfg_type (welcome_entry greeting_state (str_int 5))
                    \<in> {None, Some ''photo'', Some ''animation'', Some ''video''})
        \<longrightarrow> snd (snd (send_welcome greeting_state 5 [ann])) = Returned
            \<and> map call_text (fst (snd (send_welcome greeting_state 5 [ann])))
                = map (\<lambda>m. substituted m ps) [ann]"
    by (elim conjE)
  from this [rule_format, of ?ps] tmpl member lits
  have "map call_text (fst (snd (send_welcome greeting_state 5 [ann]))) = [substituted ann ?ps]"
    by (simp add: greeting_cfg empty_cfg_def truthy_def)
  with none same tmpl sub show ?thesis by simp
qed

text \<open>
  The claim as stated is for every member. A member whose first name is \<open>{id}\<close> joins
  a chat with the template \<open>Hi {first}\<close>: the claim's substitution gives \<open>Hi {id}\<close>,
  while the call sent carries \<open>Hi 8\<close>, the later replacement of \<open>{id}\<close> having run over
  the name as well.
\<close>

theorem welcome_rendering_name_counterexample:
  "cfg_text (welcome_entry eve_state (str_int 5)) = Some (template_of [Lit ''Hi '', First])
   \<and> substituted curly [Lit ''Hi '', First] = ''Hi {id}''
   \<and> fst (snd (send_welcome eve_state 5 [curly])) = [SendMessage 5 ''Hi 8'' None]"
  by (simp add: eve_state_def welcome_entry_def fresh_state_def empty_cfg_def template_of_def
        substituted_def curly_def send_welcome_def truthy_def welcome_text_def welcome_call_def
        List.map_filter_def str_eval Let_def)

end
